theory Spec2Isabelle
  imports Complex_Main "HOL-Library.Multiset" "HOL-Library.AList"
begin

section \<open>Values of the configuration language and of the output document\<close>

text \<open>
  A \<open>cty\<close> number is a \<open>big.Float\<close>: a finite value or one of the two infinities
  (\<open>Infinite True\<close> is \<open>+Inf\<close>). Every finite \<open>big.Float\<close> is a rational number.
\<close>

datatype bigfloat = Finite rat | Infinite bool

text \<open>
  The typed values the converter tells apart. \<open>CNull\<close> is a null value of any type,
  \<open>CUnknown\<close> an unknown value of any type; \<open>CObject\<close> stands for object and map types,
  \<open>CList\<close> for list and tuple types; \<open>CSet\<close> and \<open>CCapsule\<close> are the known non-null values of
  the types the converter has no branch for.
\<close>

datatype cty =
    CNull
  | CUnknown
  | CObject "(string \<times> cty) list"
  | CList "cty list"
  | CSet "cty list"
  | CString string
  | CNumber bigfloat
  | CBool bool
  | CCapsule

text \<open>
  The native values handed to the JSON container (\<open>interface{}\<close>): \<open>nil\<close>, strings, integers
  (\<open>int\<close> and \<open>int64\<close>), \<open>float64\<close>, booleans, slices and \<open>map[string]interface{}\<close>. The type
  \<open>'f\<close> is \<open>float64\<close>. A Go map is an association list read through \<open>map_of\<close> and written
  with \<open>AList.update\<close>.
\<close>

datatype 'f native =
    NNil
  | NString string
  | NInt int
  | NFloat 'f
  | NBool bool
  | NSlice "'f native list"
  | NMap "(string \<times> 'f native) list"

text \<open>
  What the source leaves to the Go runtime and library: the rounding of \<open>big.Float.Float64\<close>
  and the order in which \<open>range\<close> visits the keys of a map.
\<close>

record 'f runtime =
  Float64 :: "bigfloat \<Rightarrow> 'f"
  rangeOrder :: "string set \<Rightarrow> string list"

datatype error = PanicNotACollection | PanicTooManyPrefixes | PanicTypeAssertion

section \<open>Blocks, attributes and modules\<close>

record 'f attribute =
  Name :: string
  Value :: cty
  GetRawValue :: "'f native"
  VarTypeFriendlyName :: string
  AllReferences :: "string list"

record srcRange =
  GetLocalFilename :: string
  GetStartLine :: int
  GetEndLine :: int

text \<open>
  A \<open>terraform.Block\<close> through the accessors the converter calls: \<open>Reference\<close> is
  \<open>b.Reference().String()\<close>, \<open>MetadataString\<close> is \<open>b.GetMetadata().String()\<close>, \<open>MetadataRange\<close> is
  \<open>b.GetMetadata().Range()\<close>, and \<open>moduleBlock\<close> is the unexported field of that name.
\<close>

datatype 'f block = Block
  (Type: string)
  (TypeLabel: string)
  (NameLabel: string)
  (ID: string)
  (Reference: string)
  (LocalName: string)
  (MetadataString: string)
  (MetadataRange: srcRange)
  (GetAttributes: "'f attribute list")
  (AllBlocks: "'f block list")
  (moduleBlock: "'f block option")

datatype 'f module = Module (GetBlocks: "'f block list")

section \<open>stringSet\<close>

type_synonym stringSet = "string set"

definition Add :: "stringSet \<Rightarrow> string \<Rightarrow> stringSet" where
  "Add s str = (if \<not> (str \<in> s) then insert str s else s)"

text \<open>\<open>make([]string, len(s))\<close> is a slice of \<open>len(s)\<close> empty strings; the loop appends to it.\<close>

definition Entries :: "'f runtime \<Rightarrow> stringSet \<Rightarrow> string list" where
  "Entries rt s = fold (\<lambda>entry entries. entries @ [entry]) (rangeOrder rt s) (replicate (card s) [])"

section \<open>Value Converter\<close>

definition MinInt64 :: int where "MinInt64 = - (2 ^ 63)"
definition MaxInt64 :: int where "MaxInt64 = 2 ^ 63 - 1"

fun IsInt :: "bigfloat \<Rightarrow> bool" where
  "IsInt (Finite r) = (r = of_int \<lfloor>r\<rfloor>)"
| "IsInt (Infinite pos) = False"

text \<open>
  \<open>big.Float.Int64\<close> truncates towards zero, and returns \<open>math.MinInt64\<close> or \<open>math.MaxInt64\<close>
  for a value beyond the range of \<open>int64\<close>; the converter drops its accuracy result.
\<close>

fun Int64 :: "bigfloat \<Rightarrow> int" where
  "Int64 (Finite r) =
     (if r < of_int MinInt64 then MinInt64
      else if r > of_int MaxInt64 then MaxInt64
      else if r < 0 then \<lceil>r\<rceil> else \<lfloor>r\<rfloor>)"
| "Int64 (Infinite pos) = (if pos then MaxInt64 else MinInt64)"

fun convertCtyToNativeValue :: "'f runtime \<Rightarrow> cty \<Rightarrow> 'f native \<times> bool"
  and convertValueMap :: "'f runtime \<Rightarrow> (string \<times> cty) list \<Rightarrow> (string \<times> 'f native) list \<Rightarrow> 'f native \<times> bool"
  and convertValueSlice :: "'f runtime \<Rightarrow> cty list \<Rightarrow> nat \<Rightarrow> 'f native list \<Rightarrow> 'f native \<times> bool"
where
  "convertCtyToNativeValue rt CNull = (NNil, True)"
| "convertCtyToNativeValue rt CUnknown = (NNil, True)"
| "convertCtyToNativeValue rt (CObject valueMap) = convertValueMap rt valueMap []"
| "convertCtyToNativeValue rt (CList valueSlice) = convertValueSlice rt valueSlice 0 (replicate (length valueSlice) NNil)"
| "convertCtyToNativeValue rt (CString s) = (NString s, True)"
| "convertCtyToNativeValue rt (CNumber num) =
     (if IsInt num then (NInt (Int64 num), True) else (NFloat (Float64 rt num), True))"
| "convertCtyToNativeValue rt (CBool b) = (NBool b, True)"
| "convertCtyToNativeValue rt (CSet xs) = (NNil, False)"
| "convertCtyToNativeValue rt CCapsule = (NNil, False)"
| "convertValueMap rt [] interfaceMap = (NMap interfaceMap, True)"
| "convertValueMap rt ((key, val) # rest) interfaceMap =
     (case convertCtyToNativeValue rt val of
        (v, True) \<Rightarrow> convertValueMap rt rest (AList.update key v interfaceMap)
      | (v, False) \<Rightarrow> (NNil, False))"
| "convertValueSlice rt [] idx interfaceSlice = (NSlice interfaceSlice, True)"
| "convertValueSlice rt (item # rest) idx interfaceSlice =
     (case convertCtyToNativeValue rt item of
        (v, True) \<Rightarrow> convertValueSlice rt rest (Suc idx) (interfaceSlice[idx := v])
      | (v, False) \<Rightarrow> (NNil, False))"

definition getAttributeValue :: "'f runtime \<Rightarrow> 'f attribute \<Rightarrow> 'f native" where
  "getAttributeValue rt a =
     (case convertCtyToNativeValue rt (Value a) of
        (raw, True) \<Rightarrow> raw
      | (raw, False) \<Rightarrow> GetRawValue a)"

section \<open>Path Namer\<close>

definition getPath :: "'f block \<Rightarrow> string \<Rightarrow> string" where
  "getPath b parentPath =
     (let blockName = MetadataString b
      in if parentPath = [] then blockName else parentPath @ ''.'' @ blockName)"

definition getPrivateValue_moduleBlock :: "'f block \<Rightarrow> 'f block option" where
  \<comment> \<open>Modelled from the spec: \<open>getPrivateValue\<close>, the reflection helper of another file of the
     package, reads the block's unexported back-reference to the module-inclusion block that
     owns it (\<open>nil\<close> when the block is not inside a nested module inclusion).\<close>
  "getPrivateValue_moduleBlock b = moduleBlock b"

function getModuleName :: "'f block \<Rightarrow> string" where
  "getModuleName b =
     (case getPrivateValue_moduleBlock b of
        None \<Rightarrow> []
      | Some mb \<Rightarrow>
          (let moduleName = LocalName mb;
               parentName = getModuleName mb
           in if parentName \<noteq> [] then parentName @ ''.'' @ moduleName else moduleName))"
  by pat_completeness auto
termination
proof (relation "measure size")
  show "wf (measure (size :: 'f block \<Rightarrow> nat))" by simp
next
  fix b x2 :: "'f block"
  assume "getPrivateValue_moduleBlock b = Some x2"
  then show "(x2, b) \<in> measure size"
    by (cases b) (simp add: getPrivateValue_moduleBlock_def)
qed

text \<open>
  \<open>prefixes\<close> is a Go map used as a set; \<open>for key := range prefixes { return key }\<close> returns
  the first key the runtime visits.
\<close>

definition getModulePath :: "'f runtime \<Rightarrow> 'f module \<Rightarrow> error + string" where
  "getModulePath rt m =
     (let prefixes = fold (\<lambda>b prefixes.
                        let moduleName = getModuleName b
                        in if moduleName \<noteq> [] then insert moduleName prefixes else prefixes)
                      (GetBlocks m) {}
      in if card prefixes > 1 then Inl PanicTooManyPrefixes
         else (case rangeOrder rt prefixes of key # rest \<Rightarrow> Inr key | [] \<Rightarrow> Inr []))"

section \<open>Reference Index lookups\<close>

fun getAttributeRefsMeta :: "(string \<rightharpoonup> 'f block) \<Rightarrow> string list \<Rightarrow> 'f native list \<Rightarrow> 'f native list" where
  "getAttributeRefsMeta blocksByReference [] refsMeta = refsMeta"
| "getAttributeRefsMeta blocksByReference (ref # refs) refsMeta =
     (case blocksByReference ref of
        Some block \<Rightarrow>
          getAttributeRefsMeta blocksByReference refs
            (refsMeta @ [NMap [(''id'', NString (ID block)),
                               (''label'', NString (TypeLabel block)),
                               (''name'', NString (NameLabel block))]])
      | None \<Rightarrow> getAttributeRefsMeta blocksByReference refs refsMeta)"

section \<open>Child Deduplicator\<close>

text \<open>
  \<open>AsValueSlice\<close> of the \<open>cty\<close> library returns the elements of a known collection and panics
  on any other value.
\<close>

fun AsValueSlice :: "cty \<Rightarrow> error + cty list" where
  "AsValueSlice (CList xs) = Inr xs"
| "AsValueSlice (CSet xs) = Inr xs"
| "AsValueSlice (CObject kvs) = Inr (map snd kvs)"
| "AsValueSlice v = Inl PanicNotACollection"

text \<open>
  \<open>GetAttribute\<close> returns the first attribute of that name, or \<open>nil\<close>; the \<open>Value\<close> of a
  \<open>nil\<close> attribute is \<open>cty.NilVal\<close>, which is null.
\<close>

definition GetAttribute :: "'f block \<Rightarrow> string \<Rightarrow> 'f attribute option" where
  "GetAttribute b name = find (\<lambda>attr. Name attr = name) (GetAttributes b)"

definition getForEachCount :: "'f block \<Rightarrow> error + int" where
  "getForEachCount b =
     (let valu = (case GetAttribute b ''for_each'' of None \<Rightarrow> CNull | Some attr \<Rightarrow> Value attr)
      in if valu = CNull then Inr 0
         else (case AsValueSlice valu of
                 Inl e \<Rightarrow> Inl e
               | Inr slice \<Rightarrow> Inr (int (length slice))))"

fun getChildBlocks_loop ::
  "int \<Rightarrow> int \<Rightarrow> 'f block list \<Rightarrow> 'f block list \<Rightarrow> error + 'f block list" where
  "getChildBlocks_loop expectedContentBlocks prevMaxEnd children [] = Inr children"
| "getChildBlocks_loop expectedContentBlocks prevMaxEnd children (block # rest) =
     (if Type block = ''dynamic'' then
        (case getForEachCount block of
           Inl e \<Rightarrow> Inl e
         | Inr forEachCount \<Rightarrow>
             getChildBlocks_loop (expectedContentBlocks + forEachCount) prevMaxEnd children rest)
      else if GetStartLine (MetadataRange block) \<ge> prevMaxEnd then
        getChildBlocks_loop expectedContentBlocks (GetEndLine (MetadataRange block)) (children @ [block]) rest
      else if expectedContentBlocks - 1 > 0 then
        getChildBlocks_loop (expectedContentBlocks - 1) prevMaxEnd (children @ [block]) rest
      else
        getChildBlocks_loop (expectedContentBlocks - 1) prevMaxEnd children rest)"

definition getChildBlocks :: "'f block \<Rightarrow> error + 'f block list" where
  "getChildBlocks b = getChildBlocks_loop 0 0 [] (AllBlocks b)"

section \<open>Block Builder\<close>

text \<open>
  \<open>newBlockCollector\<close>: the closures \<open>add\<close> and \<open>dump\<close> share the map \<open>collection\<close>; here it
  is passed to them. \<open>getList\<close> stores the empty slice it creates.
\<close>

definition getList ::
  "(string \<times> 'f native list) list \<Rightarrow> string \<Rightarrow> 'f native list \<times> (string \<times> 'f native list) list" where
  "getList obj key =
     (case map_of obj key of
        Some v \<Rightarrow> (v, obj)
      | None \<Rightarrow> ([], AList.update key [] obj))"

definition add ::
  "string \<Rightarrow> 'f native \<Rightarrow> (string \<times> 'f native list) list \<Rightarrow> (string \<times> 'f native list) list" where
  "add key v collection =
     (case getList collection key of
        (list, collection') \<Rightarrow> AList.update key (list @ [v]) collection')"

definition dump :: "(string \<times> 'f native list) list \<Rightarrow> (string \<times> 'f native) list" where
  "dump collection =
     fold (\<lambda>(key, items) results.
             if length items = 1 then AList.update key (items ! 0) results
             else AList.update key (NSlice items) results)
          collection []"

text \<open>
  The loop over the children: each child is built and added under its type; a panic of a
  child's build ends the loop.
\<close>

fun addChildren ::
  "(string \<times> (error + (string \<times> 'f native) list)) list \<Rightarrow> (string \<times> 'f native list) list
     \<Rightarrow> error + (string \<times> 'f native list) list" where
  "addChildren [] collection = Inr collection"
| "addChildren ((key, Inl e) # rest) collection = Inl e"
| "addChildren ((key, Inr json) # rest) collection = addChildren rest (add key (NMap json) collection)"

text \<open>The loop over the attributes: the object and the set of reference strings.\<close>

definition attributeStep ::
  "'f runtime \<Rightarrow> 'f block \<Rightarrow> 'f attribute \<Rightarrow> (string \<times> 'f native) list \<times> stringSet
     \<Rightarrow> (string \<times> 'f native) list \<times> stringSet" where
  "attributeStep rt b a st =
     (case st of (obj, allRefs) \<Rightarrow>
        (let attrName = Name a;
             obj' = (if Type b = ''variable'' \<and> attrName = ''type''
                     then AList.update attrName (NString (VarTypeFriendlyName a)) obj
                     else AList.update attrName (getAttributeValue rt a) obj)
         in (obj', fold (\<lambda>ref s. Add s ref) (AllReferences a) allRefs)))"

definition buildMeta :: "'f runtime \<Rightarrow> (string \<rightharpoonup> 'f block) \<Rightarrow> 'f block \<Rightarrow> stringSet \<Rightarrow> (string \<times> 'f native) list" where
  "buildMeta rt blocksByReference b allRefs =
     (let r = MetadataRange b;
          meta = [(''filename'', NString (GetLocalFilename r)),
                  (''line_start'', NInt (GetStartLine r)),
                  (''line_end'', NInt (GetEndLine r))];
          refs = getAttributeRefsMeta blocksByReference (Entries rt allRefs) [];
          meta = (if length refs > 0 then AList.update ''references'' (NSlice refs) meta else meta);
          tl = TypeLabel b
      in if tl \<noteq> [] then AList.update ''label'' (NString tl) meta else meta)"

text \<open>Everything of \<open>buildBlock\<close> after the children have been grouped.\<close>

definition buildBlock_body ::
  "'f runtime \<Rightarrow> (string \<rightharpoonup> 'f block) \<Rightarrow> 'f block \<Rightarrow> (string \<times> 'f native) list \<Rightarrow> (string \<times> 'f native) list" where
  "buildBlock_body rt blocksByReference b grouped =
     (let obj = fold (\<lambda>(key, result) obj. AList.update key result obj) grouped [];
          (obj, allRefs) = fold (attributeStep rt b) (GetAttributes b) (obj, {});
          obj = (if ID b \<noteq> [] then AList.update ''id'' (NString (ID b)) obj else obj);
          meta = buildMeta rt blocksByReference b allRefs
      in AList.update ''__tfmeta'' (NMap meta) obj)"

function buildBlock ::
  "'f runtime \<Rightarrow> (string \<rightharpoonup> 'f block) \<Rightarrow> 'f block \<Rightarrow> error + (string \<times> 'f native) list" where
  "buildBlock rt blocksByReference b =
     (case getChildBlocks b of
        Inl e \<Rightarrow> Inl e
      | Inr children \<Rightarrow>
          (case addChildren (map (\<lambda>child. (Type child, buildBlock rt blocksByReference child)) children) [] of
             Inl e \<Rightarrow> Inl e
           | Inr collection \<Rightarrow> Inr (buildBlock_body rt blocksByReference b (dump collection))))"
  by pat_completeness auto
termination
proof (relation "measure (\<lambda>(rt, idx, b). size b)")
  show "wf (measure (\<lambda>(rt :: 'f runtime, idx :: string \<rightharpoonup> 'f block, b :: 'f block). size b))"
    by simp
next
  fix rt :: "'f runtime" and blocksByReference :: "string \<rightharpoonup> 'f block"
    and b x :: "'f block" and children :: "'f block list"
  assume kept: "getChildBlocks b = Inr children" and x: "x \<in> set children"
  have loop: "getChildBlocks_loop e p acc bs = Inr cs \<Longrightarrow> set cs \<subseteq> set acc \<union> set bs"
    for e p and acc bs cs :: "'f block list"
  proof (induction bs arbitrary: e p acc)
    case Nil
    then show ?case by simp
  next
    case (Cons c bs)
    show ?case
    proof (cases "Type c = ''dynamic''")
      case True
      with Cons.prems obtain n where "getChildBlocks_loop (e + n) p acc bs = Inr cs"
        by (auto split: sum.splits)
      from Cons.IH[OF this] show ?thesis by auto
    next
      case False
      with Cons.prems have
        "getChildBlocks_loop e (GetEndLine (MetadataRange c)) (acc @ [c]) bs = Inr cs
         \<or> getChildBlocks_loop (e - 1) p (acc @ [c]) bs = Inr cs
         \<or> getChildBlocks_loop (e - 1) p acc bs = Inr cs"
        by (auto split: if_splits)
      then show ?thesis using Cons.IH by fastforce
    qed
  qed
  from loop[of 0 0 "[]" "AllBlocks b" children] kept x have "x \<in> set (AllBlocks b)"
    by (auto simp: getChildBlocks_def)
  then have "size x < size b"
    by (cases b) (auto simp: less_Suc_eq_le dest: size_list_estimation'[where f = size, OF _ order_refl])
  then show "((rt, blocksByReference, x), (rt, blocksByReference, b))
               \<in> measure (\<lambda>(rt, idx, b). size b)"
    by simp
qed

section \<open>Tree Walker\<close>

text \<open>
  The converter's state: the Reference Index, the calls of \<open>ArrayAppendP\<close> made on the output
  container (the node and the key it is appended under, in order), and the lines logged.
\<close>

record 'f terraformConverter =
  blocksByReference :: "string \<rightharpoonup> 'f block"
  jsonOut :: "(string \<times> 'f native) list"
  logged :: "string list"

definition visitBlock ::
  "'f runtime \<Rightarrow> 'f block \<Rightarrow> string \<Rightarrow> 'f terraformConverter \<Rightarrow> error + 'f terraformConverter" where
  "visitBlock rt b parentPath t =
     (let t = t\<lparr>blocksByReference := (blocksByReference t)(Reference b \<mapsto> b)\<rparr>
      in if Type b \<in> set [''data'', ''locals'', ''output'', ''provider'', ''terraform'',
                          ''variable'', ''module'', ''moved'', ''resource''] then
           (case buildBlock rt (blocksByReference t) b of
              Inl e \<Rightarrow> Inl e
            | Inr json \<Rightarrow>
                (case map_of json ''__tfmeta'' of
                   Some (NMap meta) \<Rightarrow>
                     (let arrayKey = getPath b parentPath;
                          meta = AList.update ''path'' (NString arrayKey) meta;
                          (key, meta) =
                            (if Type b \<in> set [''data'', ''resource'']
                             then (TypeLabel b, AList.update ''type'' (NString (Type b)) meta)
                             else (Type b, meta));
                          json = AList.update ''__tfmeta'' (NMap meta) json
                      in Inr (t\<lparr>jsonOut := jsonOut t @ [(key, NMap json)]\<rparr>))
                 | _ \<Rightarrow> Inl PanicTypeAssertion))
         else Inr (t\<lparr>logged := logged t @ [''unknown block type: '' @ Type b]\<rparr>))"

fun visitBlocks ::
  "'f runtime \<Rightarrow> 'f block list \<Rightarrow> string \<Rightarrow> 'f terraformConverter \<Rightarrow> error + 'f terraformConverter" where
  "visitBlocks rt [] path t = Inr t"
| "visitBlocks rt (b # bs) path t =
     (case visitBlock rt b path t of
        Inl e \<Rightarrow> Inl e
      | Inr t' \<Rightarrow> visitBlocks rt bs path t')"

definition visitModule ::
  "'f runtime \<Rightarrow> 'f module \<Rightarrow> 'f terraformConverter \<Rightarrow> error + 'f terraformConverter" where
  "visitModule rt m t =
     (case getModulePath rt m of
        Inl e \<Rightarrow> Inl e
      | Inr path \<Rightarrow> visitBlocks rt (GetBlocks m) path t)"

fun visitModules ::
  "'f runtime \<Rightarrow> 'f module list \<Rightarrow> 'f terraformConverter \<Rightarrow> error + 'f terraformConverter" where
  "visitModules rt [] t = Inr t"
| "visitModules rt (m # ms) t =
     (case visitModule rt m t of
        Inl e \<Rightarrow> Inl e
      | Inr t' \<Rightarrow> visitModules rt ms t')"

text \<open>\<open>VisitJSON\<close> starts from an empty container; the Reference Index is the converter's.\<close>

definition VisitJSON ::
  "'f runtime \<Rightarrow> 'f module list \<Rightarrow> 'f terraformConverter \<Rightarrow> error + 'f terraformConverter" where
  "VisitJSON rt modules t = visitModules rt modules (t\<lparr>jsonOut := []\<rparr>)"

definition NewTerraformConverter :: "'f terraformConverter" where
  "NewTerraformConverter = \<lparr>blocksByReference = Map.empty, jsonOut = [], logged = []\<rparr>"

section \<open>Notions used to state the properties\<close>

text \<open>
  The Go runtime may visit the keys of a map in any order, each key once: a runtime is
  admissible at a set when \<open>rangeOrder\<close> lists exactly its elements, without repetition.
\<close>

definition validOrder :: "'f runtime \<Rightarrow> string set \<Rightarrow> bool" where
  "validOrder rt s = (distinct (rangeOrder rt s) \<and> set (rangeOrder rt s) = s)"

text \<open>The distinct non-empty enclosing-module-chain names of a module's root blocks.\<close>

definition moduleNames :: "'f module \<Rightarrow> string set" where
  "moduleNames m = getModuleName ` set (GetBlocks m) - {[]}"

text \<open>What \<open>dump\<close> stores for a group of nodes: the node itself for a group of one, the list otherwise.\<close>

definition flatten :: "'f native list \<Rightarrow> 'f native" where
  "flatten items = (if length items = 1 then items ! 0 else NSlice items)"

text \<open>What the attribute loop of \<open>buildBlock\<close> stores under the name of an attribute.\<close>

definition attributeEntry :: "'f runtime \<Rightarrow> 'f block \<Rightarrow> 'f attribute \<Rightarrow> 'f native" where
  "attributeEntry rt b a =
     (if Type b = ''variable'' \<and> Name a = ''type'' then NString (VarTypeFriendlyName a)
      else getAttributeValue rt a)"

text \<open>The reference strings of all attributes of a block: the set \<open>allRefs\<close> at the end of the attribute loop.\<close>

definition allRefs :: "'f block \<Rightarrow> string set" where
  "allRefs b = (\<Union>a \<in> set (GetAttributes b). set (AllReferences a))"

text \<open>The descriptor \<open>getAttributeRefsMeta\<close> builds for a block found in the index.\<close>

definition descriptor :: "'f block \<Rightarrow> 'f native" where
  "descriptor block = NMap [(''id'', NString (ID block)),
                            (''label'', NString (TypeLabel block)),
                            (''name'', NString (NameLabel block))]"

text \<open>The descriptors computed for the metadata of a block against an index.\<close>

definition resolved :: "'f runtime \<Rightarrow> (string \<rightharpoonup> 'f block) \<Rightarrow> 'f block \<Rightarrow> 'f native list" where
  "resolved rt idx b = getAttributeRefsMeta idx (Entries rt (allRefs b)) []"

text \<open>The node built for a block when \<open>buildBlock\<close> returns one.\<close>

definition built :: "'f runtime \<Rightarrow> (string \<rightharpoonup> 'f block) \<Rightarrow> 'f block \<Rightarrow> (string \<times> 'f native) list" where
  "built rt idx c = (case buildBlock rt idx c of Inr d \<Rightarrow> d | Inl e \<Rightarrow> [])"

text \<open>The block types \<open>visitBlock\<close> converts; it logs and skips every other type.\<close>

definition isConvertedType :: "string \<Rightarrow> bool" where
  "isConvertedType ty = (ty \<in> set [''data'', ''locals'', ''output'', ''provider'', ''terraform'',
                                     ''variable'', ''module'', ''moved'', ''resource''])"

text \<open>The registration \<open>visitBlock\<close> starts with.\<close>

definition register :: "'f block \<Rightarrow> (string \<rightharpoonup> 'f block) \<Rightarrow> (string \<rightharpoonup> 'f block)" where
  "register b idx = idx(Reference b \<mapsto> b)"

text \<open>The key \<open>visitBlock\<close> appends a node under.\<close>

definition topLevelKey :: "'f block \<Rightarrow> string" where
  "topLevelKey b = (if Type b \<in> set [''data'', ''resource''] then TypeLabel b else Type b)"

text \<open>The metadata of a top-level node: that of \<open>buildBlock\<close> with \<open>path\<close>, and \<open>type\<close> for \<open>data\<close> and \<open>resource\<close>.\<close>

definition topLevelMeta ::
  "'f runtime \<Rightarrow> (string \<rightharpoonup> 'f block) \<Rightarrow> 'f block \<Rightarrow> string \<Rightarrow> (string \<times> 'f native) list" where
  "topLevelMeta rt idx b parentPath =
     (let meta = AList.update ''path'' (NString (getPath b parentPath)) (buildMeta rt idx b (allRefs b))
      in if Type b \<in> set [''data'', ''resource''] then AList.update ''type'' (NString (Type b)) meta else meta)"

text \<open>The entries every metadata object has: source file and lines, \<open>label\<close> when the block has a type
  label, \<open>references\<close> when a reference resolves.\<close>

definition commonMeta :: "'f runtime \<Rightarrow> (string \<rightharpoonup> 'f block) \<Rightarrow> 'f block \<Rightarrow> (string \<times> 'f native) list \<Rightarrow> bool" where
  "commonMeta rt idx b meta =
     (map_of meta ''filename'' = Some (NString (GetLocalFilename (MetadataRange b))) \<and>
      map_of meta ''line_start'' = Some (NInt (GetStartLine (MetadataRange b))) \<and>
      map_of meta ''line_end'' = Some (NInt (GetEndLine (MetadataRange b))) \<and>
      map_of meta ''label'' = (if TypeLabel b = [] then None else Some (NString (TypeLabel b))) \<and>
      map_of meta ''references'' =
        (if resolved rt idx b = [] then None else Some (NSlice (resolved rt idx b))))"

text \<open>The blocks a walk over modules visits at top level, in order.\<close>

definition visited :: "'f module list \<Rightarrow> 'f block list" where
  "visited ms = concat (map GetBlocks ms)"

text \<open>The \<open>references\<close> entry of the metadata of a node, if any.\<close>

definition metaReferences :: "(string \<times> 'f native) list \<Rightarrow> 'f native option" where
  "metaReferences doc =
     (case map_of doc ''__tfmeta'' of Some (NMap meta) \<Rightarrow> map_of meta ''references'' | _ \<Rightarrow> None)"

text \<open>The \<open>references\<close> entries of the nodes appended to the output, in order.\<close>

definition outputReferences :: "'f terraformConverter \<Rightarrow> 'f native option list" where
  "outputReferences t =
     map (\<lambda>(key, node). case node of NMap doc \<Rightarrow> metaReferences doc | _ \<Rightarrow> None) (jsonOut t)"

section \<open>Example inputs\<close>

text \<open>
  A runtime whose \<open>float64\<close> holds every value unrounded and whose maps are visited in the
  order of a fixed list of keys.
\<close>

definition exampleKeys :: "string list" where
  "exampleKeys = [''aws_s3_bucket.main'', ''aws_s3_bucket.logs'', ''var.name'', ''versioning'',
                   ''module.infra'', ''module.other'']"

definition exampleRuntime :: "bigfloat runtime" where
  "exampleRuntime = \<lparr>Float64 = (\<lambda>num. num), rangeOrder = (\<lambda>s. filter (\<lambda>key. key \<in> s) exampleKeys)\<rparr>"

definition exampleRange :: "int \<Rightarrow> int \<Rightarrow> srcRange" where
  "exampleRange s e = \<lparr>GetLocalFilename = ''main.tf'', GetStartLine = s, GetEndLine = e\<rparr>"

definition exampleAttribute :: "string \<Rightarrow> cty \<Rightarrow> string \<Rightarrow> string list \<Rightarrow> bigfloat attribute" where
  "exampleAttribute name v raw refs =
     \<lparr>Name = name, Value = v, GetRawValue = NString raw, VarTypeFriendlyName = [], AllReferences = refs\<rparr>"

definition moduleInfra :: "bigfloat block" where
  "moduleInfra = Block ''module'' ''infra'' [] ''id-infra'' ''module.infra'' ''module.infra''
     ''module.infra'' (exampleRange 1 3) [] [] None"

definition moduleOther :: "bigfloat block" where
  "moduleOther = Block ''module'' ''other'' [] ''id-other'' ''module.other'' ''module.other''
     ''module.other'' (exampleRange 5 7) [] [] None"

definition ruleTemplate :: "bigfloat block" where
  "ruleTemplate = Block ''dynamic'' ''rule'' [] ''id-template'' ''dynamic.rule'' ''dynamic.rule''
     ''dynamic.rule'' (exampleRange 3 6)
     [exampleAttribute ''for_each'' (CList [CString ''a'', CString ''b'']) ''var.rules'' []] [] None"

definition ruleInstance :: "string \<Rightarrow> bigfloat block" where
  "ruleInstance i = Block ''rule'' [] [] i ''rule'' ''rule'' ''rule'' (exampleRange 3 6)
     [exampleAttribute ''days'' (CNumber (Finite 30)) ''30'' []] [] None"

definition bucketLogs :: "bigfloat block" where
  "bucketLogs = Block ''resource'' ''aws_s3_bucket'' ''logs'' ''id-logs'' ''aws_s3_bucket.logs''
     ''aws_s3_bucket.logs'' ''aws_s3_bucket.logs'' (exampleRange 12 14) [] [] (Some moduleInfra)"

definition bucketMain :: "bigfloat block" where
  "bucketMain = Block ''resource'' ''aws_s3_bucket'' ''main'' ''id-main'' ''aws_s3_bucket.main''
     ''aws_s3_bucket.main'' ''aws_s3_bucket.main'' (exampleRange 1 10)
     [exampleAttribute ''bucket'' (CString ''assets'') ''assets'' [''var.name''],
      exampleAttribute ''target'' CCapsule ''aws_s3_bucket.logs.id'' [''aws_s3_bucket.logs'']]
     [ruleTemplate, ruleInstance ''id-rule-1'', ruleInstance ''id-rule-2''] (Some moduleInfra)"

definition strayBlock :: "bigfloat block" where
  "strayBlock = Block ''output'' ''name'' [] ''id-out'' ''output.name'' ''output.name''
     ''output.name'' (exampleRange 20 22) [] [] (Some moduleOther)"

definition coherentModule :: "bigfloat module" where
  "coherentModule = Module [bucketLogs, bucketMain]"

definition conflictingModule :: "bigfloat module" where
  "conflictingModule = Module [bucketLogs, strayBlock]"


definition versioning :: "bigfloat block" where
  "versioning = Block ''versioning'' [] [] ''id-versioning'' ''versioning'' ''versioning''
     ''versioning'' (exampleRange 2 4) [] [] None"

definition bucketVersioned :: "bigfloat block" where
  "bucketVersioned = Block ''resource'' ''aws_s3_bucket'' ''versioned'' ''id-versioned''
     ''aws_s3_bucket.versioned'' ''aws_s3_bucket.versioned'' ''aws_s3_bucket.versioned''
     (exampleRange 1 5) [] [versioning] None"

definition versioningNode :: "(string \<times> bigfloat native) list" where
  "versioningNode =
     [(''id'', NString ''id-versioning''),
      (''__tfmeta'', NMap [(''filename'', NString ''main.tf''),
                           (''line_start'', NInt 2), (''line_end'', NInt 4)])]"

definition ruleNode :: "string \<Rightarrow> (string \<times> bigfloat native) list" where
  "ruleNode i =
     [(''days'', NInt 30), (''id'', NString i),
      (''__tfmeta'', NMap [(''filename'', NString ''main.tf''),
                           (''line_start'', NInt 3), (''line_end'', NInt 6)])]"

definition bucketVersionedNode :: "(string \<times> bigfloat native) list" where
  "bucketVersionedNode =
     [(''versioning'', NMap versioningNode),
      (''id'', NString ''id-versioned''),
      (''__tfmeta'', NMap [(''filename'', NString ''main.tf''),
                           (''line_start'', NInt 1), (''line_end'', NInt 5),
                           (''label'', NString ''aws_s3_bucket'')])]"

definition bucketMainNode :: "(string \<times> bigfloat native) list" where
  "bucketMainNode =
     [(''rule'', NSlice [NMap (ruleNode ''id-rule-1''), NMap (ruleNode ''id-rule-2'')]),
      (''bucket'', NString ''assets''),
      (''target'', NString ''aws_s3_bucket.logs.id''),
      (''id'', NString ''id-main''),
      (''__tfmeta'', NMap [(''filename'', NString ''main.tf''),
                           (''line_start'', NInt 1), (''line_end'', NInt 10),
                           (''label'', NString ''aws_s3_bucket'')])]"

definition bucketLogsOther :: "bigfloat block" where
  "bucketLogsOther = Block ''resource'' ''aws_s3_bucket'' ''logs'' ''id-logs-other'' ''aws_s3_bucket.logs''
     ''aws_s3_bucket.logs'' ''aws_s3_bucket.logs'' (exampleRange 12 14) [] [] (Some moduleOther)"

definition logsOutput :: "bigfloat block" where
  "logsOutput = Block ''output'' ''logs_id'' [] ''id-output'' ''output.logs_id'' ''output.logs_id''
     ''output.logs_id'' (exampleRange 16 18)
     [exampleAttribute ''value'' CUnknown ''aws_s3_bucket.logs.id'' [''aws_s3_bucket.logs'']] [] (Some moduleOther)"

definition versioningOutput :: "bigfloat block" where
  "versioningOutput = Block ''output'' ''versioning'' [] ''id-output-v'' ''output.versioning''
     ''output.versioning'' ''output.versioning'' (exampleRange 7 9)
     [exampleAttribute ''value'' CUnknown ''versioning'' [''versioning'']] [] None"

definition bucketMainNodeResolved :: "(string \<times> bigfloat native) list" where
  "bucketMainNodeResolved =
     [(''rule'', NSlice [NMap (ruleNode ''id-rule-1''), NMap (ruleNode ''id-rule-2'')]),
      (''bucket'', NString ''assets''),
      (''target'', NString ''aws_s3_bucket.logs.id''),
      (''id'', NString ''id-main''),
      (''__tfmeta'', NMap [(''filename'', NString ''main.tf''),
                           (''line_start'', NInt 1), (''line_end'', NInt 10),
                           (''references'',
                            NSlice [NMap [(''id'', NString ''id-logs''),
                                          (''label'', NString ''aws_s3_bucket''),
                                          (''name'', NString ''logs'')]]),
                           (''label'', NString ''aws_s3_bucket'')])]"


definition versionedModule :: "bigfloat module" where
  "versionedModule = Module [bucketVersioned, versioningOutput]"

definition bucketDuplicated :: "bigfloat block" where
  "bucketDuplicated = Block ''resource'' ''aws_s3_bucket'' ''duplicated'' ''id-duplicated''
     ''aws_s3_bucket.duplicated'' ''aws_s3_bucket.duplicated'' ''aws_s3_bucket.duplicated''
     (exampleRange 1 10) []
     [ruleTemplate, ruleInstance ''id-rule-1'', ruleInstance ''id-rule-2'',
      ruleInstance ''id-rule-1'', ruleInstance ''id-rule-2''] None"

section \<open>Auxiliary facts\<close>

declare getModuleName.simps [simp del]
declare buildBlock.simps [simp del]

subsection \<open>stringSet and the lookups in the Reference Index\<close>

lemma fold_snoc: "fold (\<lambda>entry entries. entries @ [entry]) xs acc = acc @ xs"
  by (induction xs arbitrary: acc) simp_all

lemma Entries_eq: "Entries rt s = replicate (card s) [] @ rangeOrder rt s"
  by (simp add: Entries_def fold_snoc)

lemma set_Entries: "validOrder rt s \<Longrightarrow> set (Entries rt s) = (if s = {} then {} else insert [] s)"
proof -
  assume v: "validOrder rt s"
  then have f: "finite s" by (metis List.finite_set validOrder_def)
  show ?thesis using v f by (auto simp: Entries_eq validOrder_def card_gt_0_iff)
qed

lemma refsMeta_acc: "getAttributeRefsMeta idx refs acc = acc @ getAttributeRefsMeta idx refs []"
proof (induction refs arbitrary: acc)
  case Nil show ?case by simp
next
  case (Cons r refs)
  show ?case
  proof (cases "idx r")
    case None
    then show ?thesis using Cons.IH[of acc] by simp
  next
    case (Some blk)
    then show ?thesis using Cons.IH[of "acc @ [x]" for x] Cons.IH[of "[x]" for x] by simp
  qed
qed

lemma refsMeta_append: "getAttributeRefsMeta idx (xs @ ys) [] = getAttributeRefsMeta idx xs [] @ getAttributeRefsMeta idx ys []"
proof (induction xs)
  case Nil show ?case by simp
next
  case (Cons r xs)
  show ?case
  proof (cases "idx r")
    case None then show ?thesis using Cons.IH by simp
  next
    case (Some blk)
    then show ?thesis using Cons.IH refsMeta_acc[of idx "xs @ ys" "[x]" for x] refsMeta_acc[of idx "xs" "[x]" for x] by simp
  qed
qed

lemma refsMeta_padding: "idx [] = None \<Longrightarrow> getAttributeRefsMeta idx (replicate n []) [] = []"
  by (induction n) simp_all

lemma refsMeta_eq:
  "getAttributeRefsMeta idx refs [] = map (\<lambda>r. descriptor (the (idx r))) (filter (\<lambda>r. idx r \<noteq> None) refs)"
proof (induction refs)
  case Nil show ?case by simp
next
  case (Cons r refs)
  show ?case
  proof (cases "idx r")
    case None then show ?thesis using Cons.IH by simp
  next
    case (Some blk)
    then show ?thesis
      using Cons.IH refsMeta_acc[of idx refs "[descriptor blk]"] by (simp add: descriptor_def)
  qed
qed

lemma refsMeta_unresolved:
  "idx r = None \<Longrightarrow> getAttributeRefsMeta idx refs [] = getAttributeRefsMeta idx (filter (\<lambda>x. x \<noteq> r) refs) []"
proof -
  assume n: "idx r = None"
  have "filter (\<lambda>x. idx x \<noteq> None) (filter (\<lambda>x. x \<noteq> r) refs) = filter (\<lambda>x. idx x \<noteq> None) refs"
    using n by (induction refs) auto
  then show ?thesis by (simp add: refsMeta_eq)
qed

lemma count_list_map_unique:
  "\<forall>x \<in> set xs. (f x = y) = (x = r) \<Longrightarrow> count_list (map f xs) y = count_list xs r"
  by (induction xs) auto

lemma count_list_filter: "count_list (filter P xs) r = (if P r then count_list xs r else 0)"
  by (induction xs) auto

lemma count_list_distinct: "distinct xs \<Longrightarrow> count_list xs r = (if r \<in> set xs then 1 else 0)"
  by (induction xs) auto

lemma count_list_replicate: "count_list (replicate n a) r = (if r = a then n else 0)"
  by (induction n) auto

subsection \<open>The module path\<close>

lemma fold_prefixes:
  "fold (\<lambda>b prefixes. if getModuleName b \<noteq> [] then insert (getModuleName b) prefixes
                       else prefixes) bs P
   = P \<union> (getModuleName ` set bs - {[]})"
  by (induction bs arbitrary: P) auto

lemma getModulePath_eq:
  "getModulePath rt m =
     (if card (moduleNames m) > 1 then Inl PanicTooManyPrefixes
      else (case rangeOrder rt (moduleNames m) of key # rest \<Rightarrow> Inr key | [] \<Rightarrow> Inr []))"
  by (simp add: getModulePath_def fold_prefixes moduleNames_def Let_def)

lemma visitModules_abort:
  "m \<in> set ms \<Longrightarrow> getModulePath rt m = Inl e \<Longrightarrow> \<exists>e'. visitModules rt ms t = Inl e'"
proof (induction ms arbitrary: t)
  case Nil then show ?case by simp
next
  case (Cons a ms)
  show ?case
  proof (cases "visitModule rt a t")
    case (Inl e0) then show ?thesis by simp
  next
    case (Inr t')
    then have "a \<noteq> m" using Cons.prems(2) by (auto simp: visitModule_def)
    then have "m \<in> set ms" using Cons.prems(1) by simp
    from Cons.IH[OF this Cons.prems(2), of t'] Inr show ?thesis by simp
  qed
qed


subsection \<open>The loop of the Child Deduplicator\<close>

lemma getForEachCount_collection:
  "GetAttribute tmpl ''for_each'' = Some attr \<Longrightarrow> AsValueSlice (Value attr) = Inr slice \<Longrightarrow>
   getForEachCount tmpl = Inr (int (length slice))"
  by (cases "Value attr") (auto simp: getForEachCount_def)

lemma loop_accepts_all:
  "\<forall>c \<in> set rest. Type c \<noteq> ''dynamic'' \<Longrightarrow> int (length rest) < e \<Longrightarrow>
   getChildBlocks_loop e p acc rest = Inr (acc @ rest)"
proof (induction rest arbitrary: e p acc)
  case Nil
  show ?case by simp
next
  case (Cons c rest)
  from Cons.prems have nd: "Type c \<noteq> ''dynamic''" and rest: "\<forall>c \<in> set rest. Type c \<noteq> ''dynamic''"
    and e1: "int (length rest) < e - 1" and e2: "int (length rest) < e" and pos: "e - 1 > 0"
    by auto
  show ?case
  proof (cases "GetStartLine (MetadataRange c) \<ge> p")
    case True
    then show ?thesis using nd Cons.IH[OF rest e2] by simp
  next
    case False
    then show ?thesis using nd pos Cons.IH[OF rest e1] by simp
  qed
qed

lemma loop_overlapping:
  "\<forall>c \<in> set rest. Type c \<noteq> ''dynamic'' \<and> GetStartLine (MetadataRange c) < p \<Longrightarrow>
   getChildBlocks_loop e p acc rest = Inr (acc @ take (nat (e - 1)) rest)"
proof (induction rest arbitrary: e acc)
  case Nil
  show ?case by simp
next
  case (Cons c rest)
  from Cons.prems have c: "Type c \<noteq> ''dynamic''" "\<not> GetStartLine (MetadataRange c) \<ge> p"
    and rest: "\<forall>c \<in> set rest. Type c \<noteq> ''dynamic'' \<and> GetStartLine (MetadataRange c) < p"
    by auto
  show ?case
  proof (cases "e - 1 > 0")
    case True
    then have "nat (e - 1) = Suc (nat (e - 1 - 1))" by simp
    then show ?thesis using c True Cons.IH[OF rest, of "e - 1" "acc @ [c]"] by simp
  next
    case False
    then have "nat (e - 1) = 0" "nat (e - 1 - 1) = 0" by simp_all
    then show ?thesis using c False Cons.IH[OF rest, of "e - 1" acc] by simp
  qed
qed

lemma loop_no_template:
  "getChildBlocks_loop e p acc bs = Inr cs \<Longrightarrow> \<forall>c \<in> set acc. Type c \<noteq> ''dynamic'' \<Longrightarrow>
   \<forall>c \<in> set cs. Type c \<noteq> ''dynamic''"
proof (induction bs arbitrary: e p acc)
  case Nil
  then show ?case by simp
next
  case (Cons b bs)
  show ?case
  proof (cases "Type b = ''dynamic''")
    case True
    with Cons.prems(1) obtain n where "getChildBlocks_loop (e + n) p acc bs = Inr cs"
      by (auto split: sum.splits)
    from Cons.IH[OF this Cons.prems(2)] show ?thesis .
  next
    case False
    then have acc': "\<forall>c \<in> set (acc @ [b]). Type c \<noteq> ''dynamic''"
      using Cons.prems(2) by simp
    from False Cons.prems(1) have
      "getChildBlocks_loop e (GetEndLine (MetadataRange b)) (acc @ [b]) bs = Inr cs
       \<or> getChildBlocks_loop (e - 1) p (acc @ [b]) bs = Inr cs
       \<or> getChildBlocks_loop (e - 1) p acc bs = Inr cs"
      by (auto split: if_splits)
    then show ?thesis using Cons.IH acc' Cons.prems(2) by blast
  qed
qed

lemma template_then_instances:
  assumes tmpl: "Type tmpl = ''dynamic''"
    and fe: "getForEachCount tmpl = Inr (int (length insts))"
    and nd: "\<forall>c \<in> set insts. Type c \<noteq> ''dynamic''"
    and first: "\<forall>c \<in> set insts. 0 \<le> GetStartLine (MetadataRange c)"
  shows "getChildBlocks_loop 0 0 [] (tmpl # insts) = Inr insts"
proof (cases insts)
  case Nil
  then show ?thesis using tmpl fe by simp
next
  case (Cons c rest)
  from nd Cons have ndc: "Type c \<noteq> ''dynamic''" and ndr: "\<forall>c \<in> set rest. Type c \<noteq> ''dynamic''"
    by auto
  from first Cons have st: "0 \<le> GetStartLine (MetadataRange c)" by simp
  have "getChildBlocks_loop (int (length insts)) (GetEndLine (MetadataRange c)) [c] rest = Inr ([c] @ rest)"
    by (rule loop_accepts_all[OF ndr]) (simp add: Cons)
  then show ?thesis using tmpl fe ndc st Cons by simp
qed

lemma template_then_duplicates:
  assumes tmpl: "Type tmpl = ''dynamic''"
    and fe: "getForEachCount tmpl = Inr (int n)"
    and same: "\<forall>c \<in> set insts. Type c \<noteq> ''dynamic'' \<and> MetadataRange c = r"
    and lines: "0 \<le> GetStartLine r" "GetStartLine r < GetEndLine r"
    and n: "1 \<le> n"
  shows "getChildBlocks_loop 0 0 [] (tmpl # insts) = Inr (take n insts)"
proof (cases insts)
  case Nil
  then show ?thesis using tmpl fe by simp
next
  case (Cons c rest)
  from same Cons have c: "Type c \<noteq> ''dynamic''" "MetadataRange c = r"
    and rest: "\<forall>c \<in> set rest. Type c \<noteq> ''dynamic'' \<and> GetStartLine (MetadataRange c) < GetEndLine r"
    using lines(2) by auto
  have "getChildBlocks_loop (int n) (GetEndLine r) [c] rest = Inr ([c] @ take (nat (int n - 1)) rest)"
    by (rule loop_overlapping[OF rest])
  moreover have "[c] @ take (nat (int n - 1)) rest = take n (c # rest)"
    using n by (cases n) simp_all
  ultimately show ?thesis using tmpl fe c lines(1) Cons by simp
qed

subsection \<open>Association lists written with update\<close>

lemma map_of_rev_distinct: "distinct (map fst xs) \<Longrightarrow> map_of (rev xs) = map_of xs"
proof (induction xs)
  case Nil show ?case by simp
next
  case (Cons x xs)
  obtain k v where x: "x = (k, v)" by (cases x)
  from Cons.prems x have "map_of xs k = None"
    by (simp add: map_of_eq_None_iff)
  then have "[k \<mapsto> v] ++ map_of xs = (map_of xs)(k \<mapsto> v)"
    by (auto simp: map_add_def fun_eq_iff split: option.splits)
  then show ?case using Cons x by simp
qed

lemma map_of_fold_update:
  "map_of (fold (\<lambda>(k, v) obj. AList.update k (f v) obj) kvs acc) k
     = (case map_of (rev kvs) k of Some v \<Rightarrow> Some (f v) | None \<Rightarrow> map_of acc k)"
proof (induction kvs arbitrary: acc)
  case Nil show ?case by simp
next
  case (Cons x kvs)
  obtain k' v' where x: "x = (k', v')" by (cases x)
  show ?case using Cons.IH[of "AList.update k' (f v') acc"] x
    by (simp add: update_conv' map_add_def split: option.splits)
qed

lemma distinct_fold_update:
  "distinct (map fst acc) \<Longrightarrow> distinct (map fst (fold (\<lambda>(k, v) obj. AList.update k (f v) obj) kvs acc))"
  by (induction kvs arbitrary: acc) (auto simp: distinct_update)

lemma find_snoc:
  "find P (xs @ [x]) = (case find P xs of Some y \<Rightarrow> Some y | None \<Rightarrow> (if P x then Some x else None))"
  by (induction xs) auto


subsection \<open>The block collector\<close>

lemma dump_eq: "dump collection = fold (\<lambda>(key, items) results. AList.update key (flatten items) results) collection []"
  unfolding dump_def by (rule fold_cong) (auto simp: flatten_def)

lemma distinct_dump: "distinct (map fst (dump collection))"
  unfolding dump_eq by (rule distinct_fold_update) simp


lemma map_of_copy_grouped:
  "distinct (map fst grouped) \<Longrightarrow>
   map_of (fold (\<lambda>(key, result) obj. AList.update key result obj) grouped []) k = map_of grouped k"
  using map_of_fold_update[of "\<lambda>v. v" grouped "[]" k]
  by (simp add: map_of_rev_distinct split: option.splits)





lemma addChildren_success:
  "\<forall>c \<in> set cs. f c = Inr (g c) \<Longrightarrow>
   addChildren (map (\<lambda>c. (Type c, f c)) cs) collection
     = Inr (fold (\<lambda>c. add (Type c) (NMap (g c))) cs collection)"
  by (induction cs arbitrary: collection) simp_all

lemma addChildren_fail:
  "c \<in> set cs \<Longrightarrow> f c = Inl e \<Longrightarrow>
   \<exists>e'. addChildren (map (\<lambda>c. (Type c, f c)) cs) collection = Inl e'"
proof (induction cs arbitrary: collection)
  case Nil then show ?case by simp
next
  case (Cons a cs)
  show ?case
  proof (cases "f a")
    case (Inl e0) then show ?thesis by simp
  next
    case (Inr d)
    then have "c \<in> set cs" using Cons.prems by auto
    from Cons.IH[OF this Cons.prems(2)] Inr show ?thesis by simp
  qed
qed

subsection \<open>The attribute loop and the metadata\<close>

lemma Add_insert: "Add s str = insert str s"
  by (auto simp: Add_def)

lemma fold_Add: "fold (\<lambda>ref s. Add s ref) rs s = s \<union> set rs"
  by (induction rs arbitrary: s) (simp_all add: Add_insert)

lemma allRefs_member: "a \<in> set (GetAttributes A) \<Longrightarrow> r \<in> set (AllReferences a) \<Longrightarrow> r \<in> allRefs A"
  by (auto simp: allRefs_def)

lemma attributeStep_eq:
  "attributeStep rt b a (obj, refs)
     = (AList.update (Name a) (attributeEntry rt b a) obj, refs \<union> set (AllReferences a))"
  by (simp add: attributeStep_def attributeEntry_def Let_def fold_Add)

lemma fold_attributeStep_refs:
  "snd (fold (attributeStep rt b) attrs (obj, refs)) = refs \<union> (\<Union>a \<in> set attrs. set (AllReferences a))"
proof (induction attrs arbitrary: obj refs)
  case Nil show ?case by simp
next
  case (Cons a attrs)
  show ?case
    by (simp add: attributeStep_eq Cons.IH Un_assoc)
qed

lemma fold_attributeStep_obj:
  "map_of (fst (fold (attributeStep rt b) attrs (obj, refs))) k
     = (case find (\<lambda>a. Name a = k) (rev attrs) of
          Some a \<Rightarrow> Some (attributeEntry rt b a)
        | None \<Rightarrow> map_of obj k)"
proof (induction attrs arbitrary: obj refs)
  case Nil show ?case by simp
next
  case (Cons a attrs)
  show ?case
    by (simp add: attributeStep_eq Cons.IH find_snoc update_conv' split: option.splits)
qed

lemma fold_attributeStep_pair:
  "fold (attributeStep rt b) attrs (obj, refs)
     = (fst (fold (attributeStep rt b) attrs (obj, refs)),
        refs \<union> (\<Union>a \<in> set attrs. set (AllReferences a)))"
  using fold_attributeStep_refs[of rt b attrs obj refs] by (metis prod.collapse)



lemma map_of_buildMeta:
  "map_of (buildMeta rt idx b refs) k =
     (if k = ''label'' \<and> TypeLabel b \<noteq> [] then Some (NString (TypeLabel b))
      else if k = ''references'' \<and> getAttributeRefsMeta idx (Entries rt refs) [] \<noteq> []
        then Some (NSlice (getAttributeRefsMeta idx (Entries rt refs) []))
      else if k = ''filename'' then Some (NString (GetLocalFilename (MetadataRange b)))
      else if k = ''line_start'' then Some (NInt (GetStartLine (MetadataRange b)))
      else if k = ''line_end'' then Some (NInt (GetEndLine (MetadataRange b)))
      else None)"
  by (simp add: buildMeta_def Let_def update_conv')

lemma map_of_buildBlock_body:
  "distinct (map fst grouped) \<Longrightarrow>
   map_of (buildBlock_body rt idx b grouped) k =
     (if k = ''__tfmeta'' then Some (NMap (buildMeta rt idx b (allRefs b)))
      else if k = ''id'' \<and> ID b \<noteq> [] then Some (NString (ID b))
      else (case find (\<lambda>a. Name a = k) (rev (GetAttributes b)) of
              Some a \<Rightarrow> Some (attributeEntry rt b a)
            | None \<Rightarrow> map_of grouped k))"
proof -
  assume d: "distinct (map fst grouped)"
  define obj0 where "obj0 = fold (\<lambda>(key, result) obj. AList.update key result obj) grouped []"
  define obj1 where "obj1 = fst (fold (attributeStep rt b) (GetAttributes b) (obj0, {}))"
  define obj2 where "obj2 = (if ID b \<noteq> [] then AList.update ''id'' (NString (ID b)) obj1 else obj1)"
  have pair: "fold (attributeStep rt b) (GetAttributes b) (obj0, {}) = (obj1, allRefs b)"
    using fold_attributeStep_pair[of rt b "GetAttributes b" obj0 "{}"]
    by (simp add: obj1_def allRefs_def)
  have body: "buildBlock_body rt idx b grouped
                = AList.update ''__tfmeta'' (NMap (buildMeta rt idx b (allRefs b))) obj2"
    by (simp add: buildBlock_body_def Let_def obj0_def[symmetric] pair obj2_def)
  have m0: "map_of obj0 k = map_of grouped k"
    unfolding obj0_def by (rule map_of_copy_grouped[OF d])
  have m1: "map_of obj1 k = (case find (\<lambda>a. Name a = k) (rev (GetAttributes b)) of
              Some a \<Rightarrow> Some (attributeEntry rt b a) | None \<Rightarrow> map_of grouped k)"
    unfolding obj1_def by (simp add: fold_attributeStep_obj m0 split: option.splits)
  have m2: "map_of obj2 k = (if k = ''id'' \<and> ID b \<noteq> [] then Some (NString (ID b)) else map_of obj1 k)"
    by (simp add: obj2_def update_conv')
  show ?thesis
    by (simp add: body update_conv' m2 m1)
qed

subsection \<open>The block builder\<close>

lemma buildBlock_Inr:
  assumes "buildBlock rt idx b = Inr doc"
  shows "\<exists>cs. getChildBlocks b = Inr cs \<and> (\<forall>c \<in> set cs. buildBlock rt idx c = Inr (built rt idx c))
           \<and> doc = buildBlock_body rt idx b
                      (dump (fold (\<lambda>c. add (Type c) (NMap (built rt idx c))) cs []))"
proof -
  from assms obtain cs where cs: "getChildBlocks b = Inr cs"
    by (subst (asm) buildBlock.simps) (auto split: sum.splits)
  have all: "\<forall>c \<in> set cs. buildBlock rt idx c = Inr (built rt idx c)"
  proof (rule ccontr)
    assume "\<not> ?thesis"
    then obtain c where c: "c \<in> set cs" "buildBlock rt idx c \<noteq> Inr (built rt idx c)" by blast
    then obtain e where e: "buildBlock rt idx c = Inl e"
      by (cases "buildBlock rt idx c") (auto simp: built_def)
    from addChildren_fail[of c cs "buildBlock rt idx" e "[]", OF c(1) e] obtain e' where
      "addChildren (map (\<lambda>c. (Type c, buildBlock rt idx c)) cs) [] = Inl e'" by blast
    then have "buildBlock rt idx b = Inl e'"
      using cs by (subst buildBlock.simps) simp
    with assms show False by simp
  qed
  have "buildBlock rt idx b = Inr (buildBlock_body rt idx b
          (dump (fold (\<lambda>c. add (Type c) (NMap (built rt idx c))) cs [])))"
    using cs addChildren_success[of cs "buildBlock rt idx" "built rt idx" "[]", OF all]
    by (subst buildBlock.simps) simp
  with assms cs all show ?thesis by simp
qed



lemma buildBlock_meta:
  assumes "buildBlock rt idx b = Inr doc"
  shows "map_of doc ''__tfmeta'' = Some (NMap (buildMeta rt idx b (allRefs b)))"
proof -
  from buildBlock_Inr[OF assms] obtain g where "doc = buildBlock_body rt idx b (dump g)" by blast
  then show ?thesis by (simp add: map_of_buildBlock_body[OF distinct_dump])
qed

lemma metaReferences_buildBlock:
  assumes "buildBlock rt idx b = Inr doc"
  shows "metaReferences doc = (if resolved rt idx b = [] then None else Some (NSlice (resolved rt idx b)))"
  using buildBlock_meta[OF assms] by (simp add: metaReferences_def map_of_buildMeta resolved_def)

lemma commonMeta_buildMeta: "commonMeta rt idx b (buildMeta rt idx b (allRefs b))"
  by (simp add: commonMeta_def map_of_buildMeta resolved_def)

lemma commonMeta_topLevelMeta: "commonMeta rt idx b (topLevelMeta rt idx b parentPath)"
  by (simp add: commonMeta_def topLevelMeta_def Let_def update_conv' map_of_buildMeta resolved_def)

subsection \<open>The walk\<close>

lemma visitBlock_converted:
  assumes "isConvertedType (Type b)"
    and "buildBlock rt (register b (blocksByReference t)) b = Inr json"
  shows "visitBlock rt b parentPath t =
           Inr (t\<lparr>blocksByReference := register b (blocksByReference t),
                  jsonOut := jsonOut t @
                    [(topLevelKey b,
                      NMap (AList.update ''__tfmeta''
                              (NMap (topLevelMeta rt (register b (blocksByReference t)) b parentPath)) json))]\<rparr>)"
proof -
  have m: "map_of json ''__tfmeta''
             = Some (NMap (buildMeta rt (register b (blocksByReference t)) b (allRefs b)))"
    by (rule buildBlock_meta[OF assms(2)])
  have c: "Type b \<in> set [''data'', ''locals'', ''output'', ''provider'', ''terraform'',
                          ''variable'', ''module'', ''moved'', ''resource'']"
    using assms(1) by (simp add: isConvertedType_def)
  show ?thesis
    unfolding visitBlock_def Let_def
    using assms(2) m c
    by (simp add: register_def topLevelKey_def topLevelMeta_def Let_def)
qed

lemma visitBlock_skipped:
  assumes "\<not> isConvertedType (Type b)"
  shows "visitBlock rt b parentPath t =
           Inr (t\<lparr>blocksByReference := register b (blocksByReference t),
                  logged := logged t @ [''unknown block type: '' @ Type b]\<rparr>)"
  using assms unfolding visitBlock_def Let_def
  by (simp add: isConvertedType_def register_def)

lemma visitBlock_Inr:
  assumes "visitBlock rt b parentPath t = Inr t'"
  shows "blocksByReference t' = register b (blocksByReference t)"
proof (cases "isConvertedType (Type b)")
  case False
  from visitBlock_skipped[OF False, of rt parentPath t] assms show ?thesis by auto
next
  case True
  show ?thesis
  proof (cases "buildBlock rt (register b (blocksByReference t)) b")
    case (Inr json)
    from visitBlock_converted[OF True Inr, of parentPath] assms show ?thesis by auto
  next
    case (Inl e)
    then have "visitBlock rt b parentPath t = Inl e"
      using True unfolding visitBlock_def Let_def by (simp add: isConvertedType_def register_def)
    with assms show ?thesis by simp
  qed
qed

lemma fold_register_None:
  "idx r = None \<Longrightarrow> r \<notin> Reference ` set bs \<Longrightarrow> fold register bs idx r = None"
  by (induction bs arbitrary: idx) (auto simp: register_def)



lemma visitBlocks_index:
  "visitBlocks rt bs path t = Inr t' \<Longrightarrow> blocksByReference t' = fold register bs (blocksByReference t)"
proof (induction bs arbitrary: t)
  case Nil then show ?case by simp
next
  case (Cons b bs)
  from Cons.prems obtain t1 where t1: "visitBlock rt b path t = Inr t1"
    and rest: "visitBlocks rt bs path t1 = Inr t'"
    by (auto split: sum.splits)
  from Cons.IH[OF rest] visitBlock_Inr[OF t1] show ?case by simp
qed

lemma visitModules_index:
  "visitModules rt ms t = Inr t' \<Longrightarrow> blocksByReference t' = fold register (visited ms) (blocksByReference t)"
proof (induction ms arbitrary: t)
  case Nil then show ?case by (simp add: visited_def)
next
  case (Cons m ms)
  from Cons.prems obtain t1 where t1: "visitModule rt m t = Inr t1"
    and rest: "visitModules rt ms t1 = Inr t'"
    by (auto split: sum.splits)
  from t1 obtain path where "visitBlocks rt (GetBlocks m) path t = Inr t1"
    by (auto simp: visitModule_def split: sum.splits)
  from visitBlocks_index[OF this] Cons.IH[OF rest] show ?case by (simp add: visited_def)
qed

lemma VisitJSON_index:
  "VisitJSON rt ms t = Inr t' \<Longrightarrow> blocksByReference t' = fold register (visited ms) (blocksByReference t)"
  using visitModules_index[of rt ms "t\<lparr>jsonOut := []\<rparr>" t'] by (simp add: VisitJSON_def)

subsection \<open>The example inputs, evaluated\<close>

lemma getModuleName_Block:
  "getModuleName (Block ty tyl nml i r lnm ms rg attrs cs mb) =
     (case mb of None \<Rightarrow> []
      | Some m \<Rightarrow> (if getModuleName m \<noteq> [] then getModuleName m @ ''.'' @ LocalName m else LocalName m))"
  by (subst getModuleName.simps) (simp add: getPrivateValue_moduleBlock_def Let_def split: option.splits)

lemma buildBlock_Block:
  "buildBlock rt idx (Block ty tyl nml i r lnm ms rg attrs cs mb) =
     (case getChildBlocks (Block ty tyl nml i r lnm ms rg attrs cs mb) of
        Inl e \<Rightarrow> Inl e
      | Inr children \<Rightarrow>
          (case addChildren (map (\<lambda>child. (Type child, buildBlock rt idx child)) children) [] of
             Inl e \<Rightarrow> Inl e
           | Inr collection \<Rightarrow>
               Inr (buildBlock_body rt idx (Block ty tyl nml i r lnm ms rg attrs cs mb) (dump collection))))"
  by (rule buildBlock.simps)

lemmas example_defs = exampleRuntime_def exampleKeys_def exampleRange_def exampleAttribute_def
  versioning_def bucketVersioned_def

lemmas builder_defs = getChildBlocks_def buildBlock_body_def buildMeta_def dump_def add_def getList_def
  attributeStep_def getAttributeValue_def Entries_def Add_def getForEachCount_def GetAttribute_def Let_def

lemmas example_block_defs = example_defs ruleTemplate_def ruleInstance_def bucketMain_def bucketLogs_def
  moduleInfra_def moduleOther_def

lemma build_versioning: "buildBlock exampleRuntime Map.empty versioning = Inr versioningNode"
  by (simp add: example_defs buildBlock_Block builder_defs versioningNode_def)





lemma build_bucketMain: "buildBlock exampleRuntime Map.empty bucketMain = Inr bucketMainNode"
  by (simp add: example_block_defs buildBlock_Block builder_defs bucketMainNode_def ruleNode_def
      MinInt64_def MaxInt64_def)

lemmas walker_defs = VisitJSON_def visitModule_def getModulePath_def visitBlock_def NewTerraformConverter_def
  getPath_def getModuleName_Block outputReferences_def metaReferences_def

lemmas more_example_defs = example_block_defs bucketLogsOther_def logsOutput_def versioningOutput_def

lemma allRefs_bucketMain: "allRefs bucketMain = {''var.name'', ''aws_s3_bucket.logs''}"
  by (auto simp add: allRefs_def bucketMain_def exampleAttribute_def)

lemma validOrder_bucketMain: "validOrder exampleRuntime (allRefs bucketMain)"
  by (auto simp add: allRefs_bucketMain validOrder_def exampleRuntime_def exampleKeys_def)

lemma build_bucketMain_resolved:
  "buildBlock exampleRuntime [''aws_s3_bucket.logs'' \<mapsto> bucketLogs] bucketMain = Inr bucketMainNodeResolved"
  by (simp add: example_block_defs buildBlock_Block builder_defs bucketMainNodeResolved_def ruleNode_def
      MinInt64_def MaxInt64_def insert_commute)


lemma run_versionedModule_Inr:
  "\<exists>t'. VisitJSON exampleRuntime [versionedModule] NewTerraformConverter = Inr t'"
  by (simp add: versionedModule_def more_example_defs walker_defs buildBlock_Block builder_defs)


section \<open>Child Deduplicator: a template followed by its instances\<close>

text \<open>
  Claim C1. A block whose descendants are a template (\<open>dynamic\<close>) block, whose \<open>for_each\<close>
  evaluates to a collection of length N, followed by N instances of the templated child
  type: \<open>getChildBlocks\<close> returns exactly N children, the N instances, and the template is not
  among them. The instances may overlap or repeat one another's source range in any way;
  source lines are not negative. When more than N instances follow, all duplicates of one
  source range of more than one line, and N is at least one, the children are the first N
  instances: the surplus is dropped. Whatever the descendants are, no block of type
  \<open>dynamic\<close> is ever among the children.
\<close>

theorem getChildBlocks_template:
  assumes "AllBlocks b = tmpl # insts"
    and "Type tmpl = ''dynamic''"
    and "GetAttribute tmpl ''for_each'' = Some attr"
    and "AsValueSlice (Value attr) = Inr slice"
  shows "(length insts = length slice \<and>
          (\<forall>c \<in> set insts. Type c \<noteq> ''dynamic'' \<and> 0 \<le> GetStartLine (MetadataRange c)) \<longrightarrow>
            (\<exists>children. getChildBlocks b = Inr children \<and> length children = length slice
               \<and> tmpl \<notin> set children \<and> children = insts)) \<and>
         (1 \<le> length slice \<and> length slice \<le> length insts \<and>
          (\<forall>c \<in> set insts. Type c \<noteq> ''dynamic'' \<and> MetadataRange c = r) \<and>
          0 \<le> GetStartLine r \<and> GetStartLine r < GetEndLine r \<longrightarrow>
            (\<exists>children. getChildBlocks b = Inr children \<and> length children = length slice
               \<and> tmpl \<notin> set children \<and> children = take (length slice) insts)) \<and>
         (\<forall>children. getChildBlocks b = Inr children \<longrightarrow>
            (\<forall>c \<in> set children. Type c \<noteq> ''dynamic''))"
proof -
  have count: "getForEachCount tmpl = Inr (int (length slice))"
    by (rule getForEachCount_collection[OF assms(3,4)])
  have exact: "\<exists>children. getChildBlocks b = Inr children \<and> length children = length slice
               \<and> tmpl \<notin> set children \<and> children = insts"
    if len: "length insts = length slice"
      and ok: "\<forall>c \<in> set insts. Type c \<noteq> ''dynamic'' \<and> 0 \<le> GetStartLine (MetadataRange c)"
  proof -
    have "getChildBlocks b = Inr insts"
      using template_then_instances[OF assms(2), of insts] count len ok assms(1)
      by (simp add: getChildBlocks_def)
    moreover have "tmpl \<notin> set insts" using assms(2) ok by auto
    ultimately show ?thesis using len by simp
  qed
  have surplus: "\<exists>children. getChildBlocks b = Inr children \<and> length children = length slice
               \<and> tmpl \<notin> set children \<and> children = take (length slice) insts"
    if n: "1 \<le> length slice" and le: "length slice \<le> length insts"
      and same: "\<forall>c \<in> set insts. Type c \<noteq> ''dynamic'' \<and> MetadataRange c = r"
      and lines: "0 \<le> GetStartLine r" "GetStartLine r < GetEndLine r"
  proof -
    have "getChildBlocks b = Inr (take (length slice) insts)"
      using template_then_duplicates[OF assms(2) count same lines n] assms(1)
      by (simp add: getChildBlocks_def)
    moreover have "tmpl \<notin> set (take (length slice) insts)"
      using assms(2) same by (auto dest: in_set_takeD)
    ultimately show ?thesis using le by simp
  qed
  have never: "\<forall>c \<in> set children. Type c \<noteq> ''dynamic''"
    if "getChildBlocks b = Inr children" for children
    using loop_no_template[of 0 0 "[]" "AllBlocks b" children] that
    by (simp add: getChildBlocks_def)
  show ?thesis using exact surplus never by blast
qed

theorem getChildBlocks_template_witness:
  "getChildBlocks bucketMain = Inr [ruleInstance ''id-rule-1'', ruleInstance ''id-rule-2'']
   \<and> getChildBlocks bucketDuplicated = Inr [ruleInstance ''id-rule-1'', ruleInstance ''id-rule-2'']"
proof -
  let ?attr = "exampleAttribute ''for_each'' (CList [CString ''a'', CString ''b'']) ''var.rules'' []"
  let ?two = "[ruleInstance ''id-rule-1'', ruleInstance ''id-rule-2'']"
  let ?four = "?two @ ?two"
  have att: "GetAttribute ruleTemplate ''for_each'' = Some ?attr"
    by (simp add: GetAttribute_def ruleTemplate_def exampleAttribute_def)
  have sl: "AsValueSlice (Value ?attr) = Inr [CString ''a'', CString ''b'']"
    by (simp add: exampleAttribute_def)
  have ty: "Type ruleTemplate = ''dynamic''"
    by (simp add: ruleTemplate_def)
  have main: "AllBlocks bucketMain = ruleTemplate # ?two"
    by (simp add: bucketMain_def)
  have len: "length ?two = length [CString ''a'', CString ''b'']"
    by simp
  have ok: "\<forall>c \<in> set ?two. Type c \<noteq> ''dynamic'' \<and> 0 \<le> GetStartLine (MetadataRange c)"
    by (simp add: ruleInstance_def exampleRange_def)
  from getChildBlocks_template[OF main ty att sl] len ok
  have first: "getChildBlocks bucketMain = Inr ?two"
    by blast
  have dup: "AllBlocks bucketDuplicated = ruleTemplate # ?four"
    by (simp add: bucketDuplicated_def)
  have n: "1 \<le> length [CString ''a'', CString ''b'']"
    and le: "length [CString ''a'', CString ''b''] \<le> length ?four"
    by simp_all
  have same: "\<forall>c \<in> set ?four. Type c \<noteq> ''dynamic'' \<and> MetadataRange c = exampleRange 3 6"
    by (simp add: ruleInstance_def)
  have lines: "0 \<le> GetStartLine (exampleRange 3 6)"
    "GetStartLine (exampleRange 3 6) < GetEndLine (exampleRange 3 6)"
    by (simp_all add: exampleRange_def)
  from getChildBlocks_template[OF dup ty att sl, of "exampleRange 3 6"] n le same lines
  have "\<exists>children. getChildBlocks bucketDuplicated = Inr children
          \<and> children = take (length [CString ''a'', CString ''b'']) ?four"
    by blast
  then have second: "getChildBlocks bucketDuplicated = Inr ?two"
    by simp
  show ?thesis using first second by simp
qed

section \<open>Value Converter: numbers\<close>

text \<open>
  Claim C2, as amended. A number is emitted as an integer when it is exactly integral (the
  check is exact on the arbitrary-precision value) and as a floating-point number
  otherwise. The integer emitted equals the value when the value lies in the range of a
  signed 64-bit integer; an integral value above that range is emitted as \<open>MaxInt64\<close>, one
  below it as \<open>MinInt64\<close>.
\<close>

theorem convertCtyToNativeValue_number:
  "(r = of_int \<lfloor>r\<rfloor> \<and> of_int MinInt64 \<le> r \<and> r \<le> of_int MaxInt64 \<longrightarrow>
      (\<exists>i. convertCtyToNativeValue rt (CNumber (Finite r)) = (NInt i, True) \<and> of_int i = r)) \<and>
   (r = of_int \<lfloor>r\<rfloor> \<and> r > of_int MaxInt64 \<longrightarrow>
      convertCtyToNativeValue rt (CNumber (Finite r)) = (NInt MaxInt64, True)) \<and>
   (r = of_int \<lfloor>r\<rfloor> \<and> r < of_int MinInt64 \<longrightarrow>
      convertCtyToNativeValue rt (CNumber (Finite r)) = (NInt MinInt64, True)) \<and>
   (r \<noteq> of_int \<lfloor>r\<rfloor> \<longrightarrow>
      convertCtyToNativeValue rt (CNumber (Finite r)) = (NFloat (Float64 rt (Finite r)), True)) \<and>
   convertCtyToNativeValue rt (CNumber (Infinite pos)) = (NFloat (Float64 rt (Infinite pos)), True)"
proof -
  have inrange: "\<exists>i. convertCtyToNativeValue rt (CNumber (Finite r)) = (NInt i, True) \<and> of_int i = r"
    if "r = of_int \<lfloor>r\<rfloor>" "of_int MinInt64 \<le> r" "r \<le> of_int MaxInt64"
  proof -
    from that(1) have c: "of_int \<lceil>r\<rceil> = r"
      by (metis ceiling_of_int)
    have "Int64 (Finite r) = (if r < 0 then \<lceil>r\<rceil> else \<lfloor>r\<rfloor>)"
      using that(2,3) by simp
    then have "of_int (Int64 (Finite r)) = r"
      using that(1) c by simp
    moreover have "convertCtyToNativeValue rt (CNumber (Finite r)) = (NInt (Int64 (Finite r)), True)"
      using that(1) by simp
    ultimately show ?thesis by blast
  qed
  have above: "convertCtyToNativeValue rt (CNumber (Finite r)) = (NInt MaxInt64, True)"
    if "r = of_int \<lfloor>r\<rfloor>" "r > of_int MaxInt64"
  proof -
    have "of_int MinInt64 \<le> (of_int MaxInt64 :: rat)"
      by (simp add: MinInt64_def MaxInt64_def)
    then have "\<not> r < of_int MinInt64" using that(2) by linarith
    then show ?thesis using that by simp
  qed
  have below: "convertCtyToNativeValue rt (CNumber (Finite r)) = (NInt MinInt64, True)"
    if "r = of_int \<lfloor>r\<rfloor>" "r < of_int MinInt64"
    using that by simp
  have nonint: "convertCtyToNativeValue rt (CNumber (Finite r)) = (NFloat (Float64 rt (Finite r)), True)"
    if "r \<noteq> of_int \<lfloor>r\<rfloor>"
    using that by simp
  have inf: "convertCtyToNativeValue rt (CNumber (Infinite pos)) = (NFloat (Float64 rt (Infinite pos)), True)"
    by simp
  show ?thesis using inrange above below nonint inf by blast
qed

theorem convertCtyToNativeValue_number_witness:
  "(5 :: rat) = of_int \<lfloor>5 :: rat\<rfloor> \<and> of_int MinInt64 \<le> (5 :: rat) \<and> (5 :: rat) \<le> of_int MaxInt64
   \<and> convertCtyToNativeValue exampleRuntime (CNumber (Finite 5)) = (NInt 5, True)
   \<and> (2 ^ 64 :: rat) = of_int \<lfloor>2 ^ 64 :: rat\<rfloor> \<and> (2 ^ 64 :: rat) > of_int MaxInt64
   \<and> convertCtyToNativeValue exampleRuntime (CNumber (Finite (2 ^ 64))) = (NInt MaxInt64, True)
   \<and> (- (2 ^ 64) :: rat) = of_int \<lfloor>- (2 ^ 64) :: rat\<rfloor> \<and> (- (2 ^ 64) :: rat) < of_int MinInt64
   \<and> convertCtyToNativeValue exampleRuntime (CNumber (Finite (- (2 ^ 64)))) = (NInt MinInt64, True)
   \<and> (11 / 2 :: rat) \<noteq> of_int \<lfloor>11 / 2 :: rat\<rfloor>
   \<and> convertCtyToNativeValue exampleRuntime (CNumber (Finite (11 / 2))) = (NFloat (Finite (11 / 2)), True)"
proof -
  have h5: "(5 :: rat) = of_int \<lfloor>5 :: rat\<rfloor> \<and> of_int MinInt64 \<le> (5 :: rat) \<and> (5 :: rat) \<le> of_int MaxInt64"
    by (simp add: MinInt64_def MaxInt64_def)
  have hbig: "(2 ^ 64 :: rat) = of_int \<lfloor>2 ^ 64 :: rat\<rfloor> \<and> (2 ^ 64 :: rat) > of_int MaxInt64"
    by (simp add: MaxInt64_def)
  have hsmall: "(- (2 ^ 64) :: rat) = of_int \<lfloor>- (2 ^ 64) :: rat\<rfloor> \<and> (- (2 ^ 64) :: rat) < of_int MinInt64"
    by (simp add: MinInt64_def)
  have fl: "\<lfloor>11 / 2 :: rat\<rfloor> = 5"
    by (rule floor_unique) simp_all
  have hfrac: "(11 / 2 :: rat) \<noteq> of_int \<lfloor>11 / 2 :: rat\<rfloor>"
    by (simp add: fl)
  from convertCtyToNativeValue_number[of 5 exampleRuntime] h5
  have r5: "\<exists>i. convertCtyToNativeValue exampleRuntime (CNumber (Finite 5)) = (NInt i, True) \<and> rat_of_int i = 5"
    by blast
  then have r5': "convertCtyToNativeValue exampleRuntime (CNumber (Finite 5)) = (NInt 5, True)"
    by (metis of_int_eq_numeral_iff)
  show ?thesis
    using h5 hbig hsmall hfrac r5'
      convertCtyToNativeValue_number[of "2 ^ 64" exampleRuntime]
      convertCtyToNativeValue_number[of "- (2 ^ 64)" exampleRuntime]
      convertCtyToNativeValue_number[of "11 / 2" exampleRuntime]
    by (simp add: exampleRuntime_def fl)
qed

text \<open>
  Claim C2 as stated fails: the integral value \<open>2 ^ 63\<close> is emitted as the integer
  \<open>2 ^ 63 - 1\<close>.
\<close>

theorem convertCtyToNativeValue_number_counterexample:
  "convertCtyToNativeValue exampleRuntime (CNumber (Finite (2 ^ 63))) = (NInt (2 ^ 63 - 1), True)
   \<and> IsInt (Finite (2 ^ 63)) \<and> rat_of_int (2 ^ 63 - 1) \<noteq> 2 ^ 63"
  by (simp add: MinInt64_def MaxInt64_def)

section \<open>Path Namer\<close>

text \<open>
  Claim C5. A module whose root blocks yield more than one distinct non-empty
  enclosing-module-chain name makes \<open>getModulePath\<close> panic, and the panic aborts \<open>visitModule\<close>
  and every \<open>VisitJSON\<close> over modules that include it. With at most one distinct non-empty
  name, \<open>getModulePath\<close> returns that name, or the empty string when there is none.
\<close>

theorem getModulePath_spec:
  "(card (moduleNames m) > 1 \<longrightarrow>
      getModulePath rt m = Inl PanicTooManyPrefixes \<and>
      visitModule rt m t = Inl PanicTooManyPrefixes \<and>
      (m \<in> set ms \<longrightarrow> (\<exists>e. VisitJSON rt ms t = Inl e))) \<and>
   (validOrder rt (moduleNames m) \<longrightarrow>
      (moduleNames m = {} \<longrightarrow> getModulePath rt m = Inr []) \<and>
      (\<forall>name. moduleNames m = {name} \<longrightarrow> getModulePath rt m = Inr name))"
proof -
  have a: "getModulePath rt m = Inl PanicTooManyPrefixes" if "card (moduleNames m) > 1"
    using that by (simp add: getModulePath_eq)
  have b: "\<exists>e. VisitJSON rt ms t = Inl e" if "card (moduleNames m) > 1" "m \<in> set ms"
    using visitModules_abort[OF that(2) a[OF that(1)]] by (simp add: VisitJSON_def)
  have c: "getModulePath rt m = Inr []" if "validOrder rt (moduleNames m)" "moduleNames m = {}"
    using that by (simp add: getModulePath_eq validOrder_def)
  have d: "getModulePath rt m = Inr name" if "validOrder rt (moduleNames m)" "moduleNames m = {name}" for name
  proof -
    from that have "set (rangeOrder rt {name}) = {name}" "distinct (rangeOrder rt {name})"
      by (simp_all add: validOrder_def)
    then have "rangeOrder rt {name} = [name]"
      by (cases "rangeOrder rt {name}") (auto simp: distinct_length_2_or_more dest!: subset_singletonD split: list.splits)
    then show ?thesis using that by (simp add: getModulePath_eq)
  qed
  have a': "visitModule rt m t = Inl PanicTooManyPrefixes" if "card (moduleNames m) > 1"
    using a[OF that] by (simp add: visitModule_def)
  show ?thesis using a a' b c d by blast
qed

theorem getModulePath_witness:
  "card (moduleNames conflictingModule) > 1
   \<and> getModulePath exampleRuntime conflictingModule = Inl PanicTooManyPrefixes
   \<and> (\<exists>e. VisitJSON exampleRuntime [coherentModule, conflictingModule] NewTerraformConverter = Inl e)
   \<and> validOrder exampleRuntime (moduleNames coherentModule)
   \<and> moduleNames coherentModule = {''module.infra''}
   \<and> getModulePath exampleRuntime coherentModule = Inr ''module.infra''
   \<and> moduleNames (Module [] :: bigfloat module) = {}
   \<and> getModulePath exampleRuntime (Module []) = Inr []"
proof -
  have n1: "moduleNames conflictingModule = {''module.infra'', ''module.other''}"
    by (simp add: moduleNames_def conflictingModule_def bucketLogs_def strayBlock_def
        moduleInfra_def moduleOther_def getModuleName_Block)
  then have c1: "card (moduleNames conflictingModule) > 1" by simp
  have n2: "moduleNames coherentModule = {''module.infra''}"
    by (simp add: moduleNames_def coherentModule_def bucketLogs_def bucketMain_def
        moduleInfra_def getModuleName_Block)
  have v2: "validOrder exampleRuntime (moduleNames coherentModule)"
    by (simp add: n2 validOrder_def exampleRuntime_def exampleKeys_def)
  have n3: "moduleNames (Module [] :: bigfloat module) = {}"
    by (simp add: moduleNames_def)
  have v3: "validOrder exampleRuntime (moduleNames (Module [] :: bigfloat module))"
    by (simp add: n3 validOrder_def exampleRuntime_def exampleKeys_def)
  have ab: "\<exists>e. VisitJSON exampleRuntime [coherentModule, conflictingModule] NewTerraformConverter = Inl e"
    using getModulePath_spec[of conflictingModule exampleRuntime NewTerraformConverter
        "[coherentModule, conflictingModule]"] c1 by simp
  show ?thesis
    using getModulePath_spec[of conflictingModule exampleRuntime NewTerraformConverter
        "[coherentModule, conflictingModule]"]
      getModulePath_spec[of coherentModule exampleRuntime] 
      getModulePath_spec[of "Module []" exampleRuntime] c1 n2 v2 n3 v3
    by simp
qed

text \<open>
  Claim C8. With an empty parent path the path of a block is the block's own
  position-qualified name; otherwise it is the parent path, a dot and the block's name.
\<close>

theorem getPath_spec:
  "(parentPath = [] \<longrightarrow> getPath b parentPath = MetadataString b) \<and>
   (parentPath \<noteq> [] \<longrightarrow> getPath b parentPath = parentPath @ ''.'' @ MetadataString b)"
  by (simp add: getPath_def)

theorem getPath_witness:
  "getPath bucketMain ''module.infra'' = ''module.infra.aws_s3_bucket.main'' \<and>
   getPath bucketMain [] = ''aws_s3_bucket.main''"
  using getPath_spec[of "''module.infra''" bucketMain] getPath_spec[of "[]" bucketMain]
  by (simp add: bucketMain_def)

section \<open>Block Builder and Tree Walker: the metadata object\<close>

text \<open>
  Claim C3, as amended. Every node \<open>buildBlock\<close> returns, for a top-level block or for a
  child built recursively, has a \<open>__tfmeta\<close> object with the keys \<open>filename\<close>, \<open>line_start\<close> and
  \<open>line_end\<close>, with \<open>label\<close> exactly when the block has a type label and \<open>references\<close> exactly
  when some reference resolves, and without \<open>path\<close> and \<open>type\<close>. Every node \<open>visitBlock\<close> appends
  to the output has, in addition, the key \<open>path\<close>, and \<open>type\<close> exactly for \<open>data\<close> and \<open>resource\<close>
  blocks. Only top-level nodes carry \<open>path\<close>.
\<close>

theorem tfmeta_keys:
  "(buildBlock rt idx b = Inr doc \<longrightarrow>
      (\<exists>meta. map_of doc ''__tfmeta'' = Some (NMap meta) \<and> commonMeta rt idx b meta \<and>
              map_of meta ''path'' = None \<and> map_of meta ''type'' = None)) \<and>
   (isConvertedType (Type b) \<and> visitBlock rt b parentPath t = Inr t' \<longrightarrow>
      (\<exists>node meta. jsonOut t' = jsonOut t @ [(topLevelKey b, NMap node)] \<and>
              map_of node ''__tfmeta'' = Some (NMap meta) \<and>
              commonMeta rt (register b (blocksByReference t)) b meta \<and>
              map_of meta ''path'' = Some (NString (getPath b parentPath)) \<and>
              map_of meta ''type'' =
                (if Type b \<in> set [''data'', ''resource''] then Some (NString (Type b)) else None)))"
proof -
  have child: "\<exists>meta. map_of doc ''__tfmeta'' = Some (NMap meta) \<and> commonMeta rt idx b meta \<and>
                 map_of meta ''path'' = None \<and> map_of meta ''type'' = None"
    if "buildBlock rt idx b = Inr doc"
  proof -
    have "map_of (buildMeta rt idx b (allRefs b)) ''path'' = None"
         "map_of (buildMeta rt idx b (allRefs b)) ''type'' = None"
      by (simp_all add: map_of_buildMeta)
    then show ?thesis using buildBlock_meta[OF that] commonMeta_buildMeta[of rt idx b] by blast
  qed
  have top: "\<exists>node meta. jsonOut t' = jsonOut t @ [(topLevelKey b, NMap node)] \<and>
              map_of node ''__tfmeta'' = Some (NMap meta) \<and>
              commonMeta rt (register b (blocksByReference t)) b meta \<and>
              map_of meta ''path'' = Some (NString (getPath b parentPath)) \<and>
              map_of meta ''type'' =
                (if Type b \<in> set [''data'', ''resource''] then Some (NString (Type b)) else None)"
    if conv: "isConvertedType (Type b)" and run: "visitBlock rt b parentPath t = Inr t'"
  proof -
    let ?idx = "register b (blocksByReference t)"
    let ?meta = "topLevelMeta rt ?idx b parentPath"
    obtain json where json: "buildBlock rt ?idx b = Inr json"
    proof (cases "buildBlock rt ?idx b")
      case (Inr j) then show ?thesis using that by blast
    next
      case (Inl e)
      have c: "Type b \<in> set [''data'', ''locals'', ''output'', ''provider'', ''terraform'',
                              ''variable'', ''module'', ''moved'', ''resource'']"
        using conv by (simp add: isConvertedType_def)
      have "visitBlock rt b parentPath t = Inl e"
        unfolding visitBlock_def Let_def using Inl c by (simp add: register_def)
      with run show ?thesis by simp
    qed
    let ?node = "AList.update ''__tfmeta'' (NMap ?meta) json"
    from visitBlock_converted[OF conv json, of parentPath] run
    have out: "jsonOut t' = jsonOut t @ [(topLevelKey b, NMap ?node)]" by auto
    have n: "map_of ?node ''__tfmeta'' = Some (NMap ?meta)"
      by (simp add: update_conv')
    have p: "map_of ?meta ''path'' = Some (NString (getPath b parentPath))"
      by (simp add: topLevelMeta_def Let_def update_conv')
    have ty: "map_of ?meta ''type'' =
                (if Type b \<in> set [''data'', ''resource''] then Some (NString (Type b)) else None)"
      by (simp add: topLevelMeta_def Let_def update_conv' map_of_buildMeta)
    show ?thesis using out n p ty commonMeta_topLevelMeta[of rt ?idx b parentPath] by blast
  qed
  show ?thesis using child top by blast
qed

theorem tfmeta_keys_witness:
  "buildBlock exampleRuntime Map.empty versioning = Inr versioningNode
   \<and> isConvertedType (Type bucketVersioned)
   \<and> map_sum id jsonOut (visitBlock exampleRuntime bucketVersioned ''module.infra'' NewTerraformConverter)
       = Inr [(''aws_s3_bucket'',
               NMap (AList.update ''__tfmeta''
                 (NMap [(''filename'', NString ''main.tf''),
                        (''line_start'', NInt 1), (''line_end'', NInt 5),
                        (''label'', NString ''aws_s3_bucket''),
                        (''path'', NString ''module.infra.aws_s3_bucket.versioned''),
                        (''type'', NString ''resource'')])
                 bucketVersionedNode))]
   \<and> (\<exists>meta. map_of versioningNode ''__tfmeta'' = Some (NMap meta)
          \<and> map_of meta ''filename'' = Some (NString ''main.tf'')
          \<and> map_of meta ''path'' = None)"
proof -
  have c: "isConvertedType (Type bucketVersioned)"
    by (simp add: isConvertedType_def bucketVersioned_def)
  have run: "visitBlock exampleRuntime bucketVersioned ''module.infra'' NewTerraformConverter
      = Inr \<lparr>blocksByReference = [''aws_s3_bucket.versioned'' \<mapsto> bucketVersioned],
             jsonOut = [(''aws_s3_bucket'',
               NMap (AList.update ''__tfmeta''
                 (NMap [(''filename'', NString ''main.tf''),
                        (''line_start'', NInt 1), (''line_end'', NInt 5),
                        (''label'', NString ''aws_s3_bucket''),
                        (''path'', NString ''module.infra.aws_s3_bucket.versioned''),
                        (''type'', NString ''resource'')])
                 bucketVersionedNode))],
             logged = []\<rparr>"
    by (simp add: example_defs buildBlock_Block builder_defs visitBlock_def NewTerraformConverter_def
        getPath_def bucketVersionedNode_def versioningNode_def)
  from tfmeta_keys[of exampleRuntime Map.empty versioning versioningNode "''module.infra''"
      NewTerraformConverter] build_versioning
  obtain meta where "map_of versioningNode ''__tfmeta'' = Some (NMap meta)"
    and "commonMeta exampleRuntime Map.empty versioning meta" and "map_of meta ''path'' = None"
    by blast
  then have "\<exists>meta. map_of versioningNode ''__tfmeta'' = Some (NMap meta)
          \<and> map_of meta ''filename'' = Some (NString ''main.tf'')
          \<and> map_of meta ''path'' = None"
    by (auto simp: commonMeta_def example_defs)
  then show ?thesis
    using c run build_versioning
      tfmeta_keys[of exampleRuntime Map.empty bucketVersioned bucketVersionedNode "''module.infra''"
        NewTerraformConverter]
    by simp
qed

text \<open>
  Claim C3 as stated fails for child nodes: the \<open>versioning\<close> node nested in the output for
  a resource has a \<open>__tfmeta\<close> without \<open>path\<close>.
\<close>

theorem tfmeta_keys_counterexample:
  "map_sum id jsonOut (visitBlock exampleRuntime bucketVersioned ''module.infra'' NewTerraformConverter) =
     Inr [(''aws_s3_bucket'',
           NMap [(''versioning'',
                  NMap [(''id'', NString ''id-versioning''),
                        (''__tfmeta'', NMap [(''filename'', NString ''main.tf''),
                                             (''line_start'', NInt 2), (''line_end'', NInt 4)])]),
                 (''id'', NString ''id-versioned''),
                 (''__tfmeta'', NMap [(''filename'', NString ''main.tf''),
                                      (''line_start'', NInt 1), (''line_end'', NInt 5),
                                      (''label'', NString ''aws_s3_bucket''),
                                      (''path'', NString ''module.infra.aws_s3_bucket.versioned''),
                                      (''type'', NString ''resource'')])])]
   \<and> map_of [(''filename'', NString ''main.tf''), (''line_start'', NInt 2),
              (''line_end'', NInt (4 :: int)) :: string \<times> bigfloat native] ''path'' = None"
  by (simp add: example_defs buildBlock_Block builder_defs visitBlock_def NewTerraformConverter_def getPath_def)

section \<open>Block Builder: attributes\<close>



section \<open>Block Builder: children\<close>



section \<open>Reference Index\<close>

text \<open>
  Claim C4, as amended. Let an attribute of block A contain the reference string of block
  B. If the Reference Index holds B under that string when A's metadata is built, the
  \<open>references\<close> list of the metadata contains B's descriptor (id, type label and name
  label); it contains it exactly once when the string is not empty and no other reference
  string of A, nor the empty string, resolves to a block with an equal descriptor. If the
  index holds nothing under that string, the reference contributes no entry. The
  \<open>references\<close> key is absent exactly when no entry of the reference slice resolves.
\<close>

theorem references_metadata:
  assumes "a \<in> set (GetAttributes A)" and "Reference B \<in> set (AllReferences a)"
    and "validOrder rt (allRefs A)"
    and "buildBlock rt idx A = Inr doc"
  shows "(idx (Reference B) = Some B \<longrightarrow>
            (\<exists>ds. metaReferences doc = Some (NSlice ds) \<and> descriptor B \<in> set ds \<and>
               (Reference B \<noteq> [] \<and>
                (\<forall>r C. r \<noteq> Reference B \<and> (r \<in> allRefs A \<or> r = []) \<and> idx r = Some C
                        \<longrightarrow> descriptor C \<noteq> descriptor B)
                \<longrightarrow> count_list ds (descriptor B) = 1))) \<and>
         (idx (Reference B) = None \<longrightarrow>
            resolved rt idx A =
              getAttributeRefsMeta idx (filter (\<lambda>x. x \<noteq> Reference B) (Entries rt (allRefs A))) []) \<and>
         ((metaReferences doc = None) = (\<forall>x \<in> set (Entries rt (allRefs A)). idx x = None))"
proof -
  let ?r = "Reference B"
  let ?es = "Entries rt (allRefs A)"
  let ?f = "\<lambda>r. descriptor (the (idx r))"
  let ?xs = "filter (\<lambda>r. idx r \<noteq> None) ?es"
  have mem: "?r \<in> allRefs A" by (rule allRefs_member[OF assms(1,2)])
  have d: "distinct (rangeOrder rt (allRefs A))" and s: "set (rangeOrder rt (allRefs A)) = allRefs A"
    using assms(3) by (simp_all add: validOrder_def)
  have es: "set ?es = insert [] (allRefs A)"
    using set_Entries[OF assms(3)] mem by auto
  have res: "resolved rt idx A = map ?f ?xs"
    by (simp add: resolved_def refsMeta_eq)
  have refs: "metaReferences doc = (if resolved rt idx A = [] then None else Some (NSlice (resolved rt idx A)))"
    by (rule metaReferences_buildBlock[OF assms(4)])
  have held: "\<exists>ds. metaReferences doc = Some (NSlice ds) \<and> descriptor B \<in> set ds \<and>
               (Reference B \<noteq> [] \<and>
                (\<forall>r C. r \<noteq> Reference B \<and> (r \<in> allRefs A \<or> r = []) \<and> idx r = Some C
                        \<longrightarrow> descriptor C \<noteq> descriptor B)
                \<longrightarrow> count_list ds (descriptor B) = 1)"
    if h: "idx ?r = Some B"
  proof -
    have in_xs: "?r \<in> set ?xs" using h es mem by simp
    then have "?f ?r \<in> ?f ` set ?xs" by (rule imageI)
    then have "?f ?r \<in> set (map ?f ?xs)" by simp
    then have inres: "descriptor B \<in> set (resolved rt idx A)" using h res by simp
    then have ne: "resolved rt idx A \<noteq> []" by auto
    have once: "count_list (resolved rt idx A) (descriptor B) = 1"
      if ne0: "?r \<noteq> []"
        and uniq: "\<forall>r C. r \<noteq> ?r \<and> (r \<in> allRefs A \<or> r = []) \<and> idx r = Some C
                     \<longrightarrow> descriptor C \<noteq> descriptor B"
    proof -
      have "\<forall>x \<in> set ?xs. (?f x = descriptor B) = (x = ?r)"
      proof
        fix x assume x: "x \<in> set ?xs"
        then obtain C where C: "idx x = Some C" by auto
        from x es have "x \<in> allRefs A \<or> x = []" by auto
        then show "(?f x = descriptor B) = (x = ?r)"
          using uniq C h by (cases "x = ?r") auto
      qed
      then have "count_list (map ?f ?xs) (descriptor B) = count_list ?xs ?r"
        by (rule count_list_map_unique)
      also have "\<dots> = count_list ?es ?r"
        using h by (simp add: count_list_filter)
      also have "\<dots> = count_list (rangeOrder rt (allRefs A)) ?r"
        using ne0 by (simp add: Entries_eq count_list_replicate)
      also have "\<dots> = 1"
        using d s mem by (simp add: count_list_distinct)
      finally show ?thesis using res by simp
    qed
    show ?thesis using refs ne inres once by auto
  qed
  have unheld: "resolved rt idx A = getAttributeRefsMeta idx (filter (\<lambda>x. x \<noteq> ?r) ?es) []"
    if "idx ?r = None"
    unfolding resolved_def using refsMeta_unresolved[of idx ?r ?es] that by simp
  have omitted: "(metaReferences doc = None) = (\<forall>x \<in> set ?es. idx x = None)"
    using refs res by (auto simp: filter_empty_conv)
  show ?thesis using held unheld omitted by blast
qed

theorem references_metadata_witness:
  "buildBlock exampleRuntime [''aws_s3_bucket.logs'' \<mapsto> bucketLogs] bucketMain = Inr bucketMainNodeResolved
   \<and> Reference bucketLogs \<in> set (AllReferences
         (exampleAttribute ''target'' CCapsule ''aws_s3_bucket.logs.id'' [''aws_s3_bucket.logs'']))
   \<and> validOrder exampleRuntime (allRefs bucketMain)
   \<and> [''aws_s3_bucket.logs'' \<mapsto> bucketLogs] (Reference bucketLogs) = Some bucketLogs
   \<and> (\<exists>ds. metaReferences bucketMainNodeResolved = Some (NSlice ds)
          \<and> count_list ds (descriptor bucketLogs) = 1)
   \<and> buildBlock exampleRuntime Map.empty bucketMain = Inr bucketMainNode
   \<and> metaReferences bucketMainNode = None"
proof -
  let ?a = "exampleAttribute ''target'' CCapsule ''aws_s3_bucket.logs.id'' [''aws_s3_bucket.logs'']"
  let ?idx = "[''aws_s3_bucket.logs'' \<mapsto> bucketLogs]"
  have h1: "?a \<in> set (GetAttributes bucketMain)"
    by (simp add: bucketMain_def)
  have h2: "Reference bucketLogs \<in> set (AllReferences ?a)"
    by (simp add: bucketLogs_def exampleAttribute_def)
  have held: "?idx (Reference bucketLogs) = Some bucketLogs"
    by (simp add: bucketLogs_def)
  have ne: "Reference bucketLogs \<noteq> []"
    by (simp add: bucketLogs_def)
  have uniq: "\<forall>r C. r \<noteq> Reference bucketLogs \<and> (r \<in> allRefs bucketMain \<or> r = []) \<and> ?idx r = Some C
                \<longrightarrow> descriptor C \<noteq> descriptor bucketLogs"
    by (simp add: bucketLogs_def)
  from references_metadata[OF h1 h2 validOrder_bucketMain build_bucketMain_resolved] held ne uniq
  have one: "\<exists>ds. metaReferences bucketMainNodeResolved = Some (NSlice ds)
          \<and> count_list ds (descriptor bucketLogs) = 1"
    by blast
  have none: "\<forall>x \<in> set (Entries exampleRuntime (allRefs bucketMain)). Map.empty x = None"
    by simp
  from references_metadata[OF h1 h2 validOrder_bucketMain build_bucketMain] none
  have "metaReferences bucketMainNode = None"
    by blast
  then show ?thesis
    using one h2 held validOrder_bucketMain build_bucketMain_resolved build_bucketMain by simp
qed

text \<open>
  Claim C4 as stated fails when two blocks share a reference string, as blocks of the same
  type and name in different modules do. First run: \<open>bucketLogs\<close> is registered before the
  metadata of \<open>logsOutput\<close> is built, and \<open>logsOutput\<close> holds its reference string, yet the
  descriptor is that of \<open>bucketLogsOther\<close>, registered in between under the same string.
  Second run: \<open>bucketLogs\<close> is not yet registered when the metadata of \<open>bucketMain\<close> is built,
  yet the reference contributes an entry, the descriptor of \<open>bucketLogsOther\<close>.
\<close>

theorem references_metadata_counterexample:
  "map_sum id outputReferences
     (VisitJSON exampleRuntime [Module [bucketLogs], Module [bucketLogsOther, logsOutput]] NewTerraformConverter)
     = Inr [None, None,
            Some (NSlice [NMap [(''id'', NString ''id-logs-other''),
                                (''label'', NString ''aws_s3_bucket''),
                                (''name'', NString ''logs'')]])]
   \<and> Reference bucketLogs \<in> set (AllReferences (hd (GetAttributes logsOutput)))
   \<and> ID bucketLogs = ''id-logs''
   \<and> map_sum id outputReferences
     (VisitJSON exampleRuntime [Module [bucketLogsOther], Module [bucketMain, bucketLogs]] NewTerraformConverter)
     = Inr [None,
            Some (NSlice [NMap [(''id'', NString ''id-logs-other''),
                                (''label'', NString ''aws_s3_bucket''),
                                (''name'', NString ''logs'')]]),
            None]"
  by (simp add: more_example_defs walker_defs buildBlock_Block builder_defs insert_commute)



section \<open>stringSet.Entries\<close>

text \<open>
  Claim C10. For a reference set of n distinct strings, \<open>Entries\<close> returns a slice of length
  2n: n empty strings, then the n strings of the set, each once, in the order the runtime
  visits them. When the empty string is not a key of the Reference Index, the padding
  yields no descriptor: the descriptors, and the \<open>references\<close> entry of a block's metadata,
  are those of the n strings alone. The empty string is not a key after a walk that
  started without it and visited no block whose reference string is empty.
\<close>

theorem Entries_spec:
  assumes "validOrder rt s"
  shows "length (Entries rt s) = 2 * card s \<and>
         take (card s) (Entries rt s) = replicate (card s) [] \<and>
         distinct (drop (card s) (Entries rt s)) \<and>
         set (drop (card s) (Entries rt s)) = s \<and>
         (idx [] = None \<longrightarrow>
            getAttributeRefsMeta idx (Entries rt s) [] = getAttributeRefsMeta idx (drop (card s) (Entries rt s)) []) \<and>
         (idx [] = None \<and> s = allRefs b \<and> buildBlock rt idx b = Inr doc \<longrightarrow>
            metaReferences doc =
              (if getAttributeRefsMeta idx (rangeOrder rt s) [] = [] then None
               else Some (NSlice (getAttributeRefsMeta idx (rangeOrder rt s) [])))) \<and>
         (VisitJSON rt ms t = Inr t' \<and> blocksByReference t [] = None \<and>
          [] \<notin> Reference ` set (visited ms) \<longrightarrow> blocksByReference t' [] = None)"
proof -
  from assms have d: "distinct (rangeOrder rt s)" and st: "set (rangeOrder rt s) = s"
    by (simp_all add: validOrder_def)
  have len: "length (rangeOrder rt s) = card s"
    using distinct_card[OF d] st by simp
  have shape: "length (Entries rt s) = 2 * card s \<and>
         take (card s) (Entries rt s) = replicate (card s) [] \<and>
         distinct (drop (card s) (Entries rt s)) \<and>
         set (drop (card s) (Entries rt s)) = s"
    using d st len by (simp add: Entries_eq)
  have pad: "getAttributeRefsMeta idx (Entries rt s) [] = getAttributeRefsMeta idx (rangeOrder rt s) []"
    if "idx [] = None"
    using that by (simp add: Entries_eq refsMeta_append refsMeta_padding)
  have dr: "drop (card s) (Entries rt s) = rangeOrder rt s"
    using len by (simp add: Entries_eq)
  have meta: "metaReferences doc =
              (if getAttributeRefsMeta idx (rangeOrder rt s) [] = [] then None
               else Some (NSlice (getAttributeRefsMeta idx (rangeOrder rt s) [])))"
    if "idx [] = None" "s = allRefs b" "buildBlock rt idx b = Inr doc"
    using metaReferences_buildBlock[OF that(3)] pad[OF that(1)] that(2) by (simp add: resolved_def)
  have key: "blocksByReference t' [] = None"
    if "VisitJSON rt ms t = Inr t'" "blocksByReference t [] = None" "[] \<notin> Reference ` set (visited ms)"
    using VisitJSON_index[OF that(1)] fold_register_None[of "blocksByReference t" "[]" "visited ms"] that(2,3)
    by simp
  show ?thesis using shape pad dr meta key by simp
qed

theorem Entries_spec_witness:
  "validOrder exampleRuntime (allRefs bucketMain)
   \<and> allRefs bucketMain = {''var.name'', ''aws_s3_bucket.logs''}
   \<and> [''aws_s3_bucket.logs'' \<mapsto> bucketLogs] [] = None
   \<and> Entries exampleRuntime (allRefs bucketMain) = [[], [], ''aws_s3_bucket.logs'', ''var.name'']
   \<and> getAttributeRefsMeta [''aws_s3_bucket.logs'' \<mapsto> bucketLogs]
         (Entries exampleRuntime (allRefs bucketMain)) []
       = getAttributeRefsMeta [''aws_s3_bucket.logs'' \<mapsto> bucketLogs]
           [''aws_s3_bucket.logs'', ''var.name''] []
   \<and> buildBlock exampleRuntime [''aws_s3_bucket.logs'' \<mapsto> bucketLogs] bucketMain = Inr bucketMainNodeResolved
   \<and> metaReferences bucketMainNodeResolved = Some (NSlice [descriptor bucketLogs])
   \<and> [] \<notin> Reference ` set (visited [versionedModule])
   \<and> map_sum id (\<lambda>t. blocksByReference t [])
         (VisitJSON exampleRuntime [versionedModule] NewTerraformConverter) = Inr None"
proof -
  let ?idx = "[''aws_s3_bucket.logs'' \<mapsto> bucketLogs]"
  have e: "Entries exampleRuntime (allRefs bucketMain) = [[], [], ''aws_s3_bucket.logs'', ''var.name'']"
    by (simp add: allRefs_bucketMain Entries_def exampleRuntime_def exampleKeys_def)
  have o: "rangeOrder exampleRuntime (allRefs bucketMain) = [''aws_s3_bucket.logs'', ''var.name'']"
    by (simp add: allRefs_bucketMain exampleRuntime_def exampleKeys_def)
  have ds: "getAttributeRefsMeta ?idx [''aws_s3_bucket.logs'', ''var.name''] [] = [descriptor bucketLogs]"
    by (simp add: descriptor_def)
  have i0: "?idx [] = None"
    by simp
  obtain t' where run: "VisitJSON exampleRuntime [versionedModule] NewTerraformConverter = Inr t'"
    using run_versionedModule_Inr by blast
  have init: "blocksByReference (NewTerraformConverter :: bigfloat terraformConverter) [] = None"
    by (simp add: NewTerraformConverter_def)
  have out: "[] \<notin> Reference ` set (visited [versionedModule])"
    by (simp add: visited_def versionedModule_def more_example_defs)
  note inst = Entries_spec[OF validOrder_bucketMain, of ?idx bucketMain bucketMainNodeResolved
      "[versionedModule]" NewTerraformConverter t']
  from inst i0 build_bucketMain_resolved o ds
  have m: "metaReferences bucketMainNodeResolved = Some (NSlice [descriptor bucketLogs])"
    by simp
  from inst run init out have k: "blocksByReference t' [] = None"
    by blast
  from inst i0 e
  have p: "getAttributeRefsMeta ?idx (Entries exampleRuntime (allRefs bucketMain)) []
             = getAttributeRefsMeta ?idx [''aws_s3_bucket.logs'', ''var.name''] []"
    by (simp add: allRefs_bucketMain)
  show ?thesis
    using validOrder_bucketMain allRefs_bucketMain e p build_bucketMain_resolved m out k run
    by simp
qed

end
